theory Spec2Isabelle
  imports Main "HOL-Library.Sublist"
begin

text \<open>
  A filesystem server: a path validator that confines requests to a list of allowed
  directories (package \<open>security\<close>), the file and directory operations (package
  \<open>filesystem\<close>) and the tool handlers that call them (package \<open>handlers\<close>).
  The Go functions are translated one by one, with their names; the library functions
  they call are modelled first.
\<close>

section \<open>Strings\<close>

text \<open>
  Go strings are byte sequences; they are modelled as \<open>string\<close> (a list of 8-bit
  characters). The functions of package \<open>strings\<close> that the program calls are written
  out here for byte strings.
\<close>

abbreviation LF :: char where "LF \<equiv> CHR 0x0A"
abbreviation CR :: char where "CR \<equiv> CHR 0x0D"
abbreviation TAB :: char where "TAB \<equiv> CHR 0x09"

text \<open>\<open>strings.HasPrefix\<close>.\<close>

definition HasPrefix :: "string \<Rightarrow> string \<Rightarrow> bool" where
  "HasPrefix s p = (take (length p) s = p)"

text \<open>\<open>strings.Contains\<close>: some suffix of \<open>s\<close> starts with \<open>sub\<close>.\<close>

fun Contains :: "string \<Rightarrow> string \<Rightarrow> bool" where
  "Contains [] sub = (sub = [])"
| "Contains (c # cs) sub = (HasPrefix (c # cs) sub \<or> Contains cs sub)"

text \<open>\<open>strings.Replace(s, old, new, 1)\<close>: the first occurrence only.\<close>

fun Replace1 :: "string \<Rightarrow> string \<Rightarrow> string \<Rightarrow> string" where
  "Replace1 [] old new = (if old = [] then new else [])"
| "Replace1 (c # cs) old new =
     (if HasPrefix (c # cs) old then new @ drop (length old) (c # cs)
      else c # Replace1 cs old new)"

text \<open>\<open>strings.Split(s, sep)\<close> for a one-byte separator: never the empty list.\<close>

fun Split :: "string \<Rightarrow> char \<Rightarrow> string list" where
  "Split [] sep = [[]]"
| "Split (c # cs) sep =
     (if c = sep then [] # Split cs sep
      else (case Split cs sep of [] \<Rightarrow> [[c]] | s # ss \<Rightarrow> (c # s) # ss))"

text \<open>\<open>strings.Join(elems, sep)\<close>.\<close>

fun JoinStrings :: "string list \<Rightarrow> string \<Rightarrow> string" where
  "JoinStrings [] sep = []"
| "JoinStrings [s] sep = s"
| "JoinStrings (s # t # ss) sep = s @ sep @ JoinStrings (t # ss) sep"

section \<open>Package path/filepath (Unix)\<close>

text \<open>
  The lexical path functions of the Go standard library, for the separator \<open>/\<close> and no
  volume names. \<open>Clean\<close> works on the elements between separators: empty elements and
  \<open>.\<close> are dropped, \<open>..\<close> removes the element before it, and \<open>..\<close> at the
  start is dropped in a rooted path and kept in a relative one.
\<close>

abbreviation Separator :: char where "Separator \<equiv> CHR ''/''"

definition IsAbs :: "string \<Rightarrow> bool" where
  "IsAbs p = HasPrefix p ''/''"

fun cleanElems :: "bool \<Rightarrow> string list \<Rightarrow> string list \<Rightarrow> string list" where
  "cleanElems rooted out [] = rev out"
| "cleanElems rooted out (e # es) =
     (if e = [] \<or> e = ''.'' then cleanElems rooted out es
      else if e = ''..'' then
        (if out \<noteq> [] \<and> hd out \<noteq> ''..'' then cleanElems rooted (tl out) es
         else if \<not> rooted then cleanElems rooted (e # out) es
         else cleanElems rooted out es)
      else cleanElems rooted (e # out) es)"

definition Clean :: "string \<Rightarrow> string" where
  "Clean p =
     (if p = [] then ''.''
      else let rooted = (hd p = Separator);
               body = JoinStrings (cleanElems rooted [] (Split p Separator)) ''/''
           in if rooted then Separator # body
              else if body = [] then ''.'' else body)"

text \<open>\<open>filepath.Join\<close> of two elements: empty leading elements are ignored.\<close>

definition Join :: "string \<Rightarrow> string \<Rightarrow> string" where
  "Join a b =
     (if a \<noteq> [] then Clean (a @ ''/'' @ b)
      else if b \<noteq> [] then Clean b
      else [])"

text \<open>\<open>filepath.Dir\<close>: everything up to and including the last separator, cleaned.\<close>

definition Dir :: "string \<Rightarrow> string" where
  "Dir p = Clean (rev (dropWhile (\<lambda>c. c \<noteq> Separator) (rev p)))"

text \<open>
  \<open>filepath.Rel(basepath, targpath)\<close>. Both paths are cleaned; the library then walks
  the two strings element by element while the elements agree. \<open>pathElems\<close> lists the
  elements that walk sees (a trailing separator, which only the root has after cleaning,
  ends the walk), and \<open>dropCommon\<close> removes the elements the two paths share at
  their start. When the first element left of the base is \<open>..\<close> the relative path
  would depend on the working directory and the library reports an error; otherwise
  the result climbs out of what is left of the base and descends into what is left of
  the target.
\<close>

datatype relerr = RelCantMake

definition pathElems :: "string \<Rightarrow> string list" where
  "pathElems s = (let es = Split s Separator in if last es = [] then butlast es else es)"

fun dropCommon :: "string list \<Rightarrow> string list \<Rightarrow> string list \<times> string list" where
  "dropCommon (b # bs) (t # ts) =
     (if b = t then dropCommon bs ts else (b # bs, t # ts))"
| "dropCommon bs ts = (bs, ts)"

definition Rel :: "string \<Rightarrow> string \<Rightarrow> relerr + string" where
  "Rel basepath targpath =
     (let base = Clean basepath; targ = Clean targpath in
      if targ = base then Inr ''.''
      else
        let base' = (if base = ''.'' then [] else base);
            baseSlashed = (base' \<noteq> [] \<and> hd base' = Separator);
            targSlashed = (targ \<noteq> [] \<and> hd targ = Separator)
        in if baseSlashed \<noteq> targSlashed then Inl RelCantMake
           else
             (case dropCommon (pathElems base') (pathElems targ) of
                (bs, ts) \<Rightarrow>
                  if bs \<noteq> [] \<and> hd bs = ''..'' then Inl RelCantMake
                  else if bs \<noteq> [] then
                    Inr (JoinStrings (replicate (length bs) ''..'' @ ts) ''/'')
                  else Inr (JoinStrings ts ''/'')))"

section \<open>The operating system\<close>

text \<open>
  The program reaches the filesystem only through calls of packages \<open>os\<close> and
  \<open>path/filepath\<close>. They are the fields of a record, over any type \<open>'w\<close> of
  filesystem states: a call that only reads takes the state, a call that writes returns
  the new state too. Theorems stated for every such record hold whatever the filesystem
  does. Logging has no effect on results and is left out.
\<close>

datatype errno = ENOENT | EEXIST | EACCES | EXDEV | ENOTDIR | EIO

datatype oserr = OsError (errnoOf: errno) (messageOf: string)

definition IsNotExist :: "oserr \<Rightarrow> bool" where
  "IsNotExist e = (errnoOf e = ENOENT)"

text \<open>
  What the program reads from an \<open>os.FileInfo\<close>: size, kind, mode bits, modification
  time, and the creation (or change) and access times of the platform's \<open>Stat_t\<close>
  where \<open>Sys()\<close> gives one. Times are integers (nanoseconds).
\<close>

record FileStat =
  Size :: int
  IsDir :: bool
  IsRegular :: bool
  Mode :: nat
  ModTime :: int
  SysTimes :: "(int \<times> int) option"

text \<open>
  What \<open>filepath.WalkDir\<close> enumerates below one path: a directory entry has a name, is
  a directory or not, and a directory has the entries \<open>os.ReadDir\<close> returns for it (in
  the order of their names) and the error \<open>os.ReadDir\<close> returned with them, if any.
\<close>

datatype DirTree =
  FileNode string
| DirNode string "DirTree list" "oserr option"

text \<open>
  \<open>Stat\<close>, \<open>ReadFileBytes\<close> (\<open>os.ReadFile\<close>), \<open>WriteFileBytes\<close>
  (\<open>os.WriteFile\<close>), \<open>ReadDir\<close> (name and \<open>IsDir\<close> of each entry),
  \<open>Rename\<close> (the package variable \<open>rename\<close>, which is \<open>os.Rename\<close>),
  \<open>RemoveAll\<close>, \<open>MkdirAll\<close>; \<open>LstatTree\<close> is \<open>os.Lstat\<close> of the root of a
  walk together with what the walk will enumerate; \<open>EntryInfo\<close> is \<open>DirEntry.Info\<close>;
  \<open>OpenRead\<close> is \<open>os.Open\<close> giving the bytes a later read returns;
  \<open>OpenFileTrunc\<close> is \<open>os.OpenFile\<close> with create, write-only and truncate;
  \<open>IoCopy\<close> writes the bytes to the opened file; \<open>CloseFile\<close> closes it.
\<close>

record 'w OS =
  UserHomeDir :: "oserr + string"
  Getwd :: "oserr + string"
  EvalSymlinks :: "'w \<Rightarrow> string \<Rightarrow> oserr + string"
  Stat :: "'w \<Rightarrow> string \<Rightarrow> oserr + FileStat"
  ReadFileBytes :: "'w \<Rightarrow> string \<Rightarrow> oserr + string"
  WriteFileBytes :: "'w \<Rightarrow> string \<Rightarrow> string \<Rightarrow> nat \<Rightarrow> oserr option \<times> 'w"
  ReadDir :: "'w \<Rightarrow> string \<Rightarrow> oserr + (string \<times> bool) list"
  Rename :: "'w \<Rightarrow> string \<Rightarrow> string \<Rightarrow> oserr option \<times> 'w"
  RemoveAll :: "'w \<Rightarrow> string \<Rightarrow> oserr option \<times> 'w"
  MkdirAll :: "'w \<Rightarrow> string \<Rightarrow> nat \<Rightarrow> oserr option \<times> 'w"
  LstatTree :: "'w \<Rightarrow> string \<Rightarrow> oserr + DirTree"
  EntryInfo :: "'w \<Rightarrow> string \<Rightarrow> oserr + FileStat"
  OpenRead :: "'w \<Rightarrow> string \<Rightarrow> oserr + string"
  OpenFileTrunc :: "'w \<Rightarrow> string \<Rightarrow> nat \<Rightarrow> oserr option \<times> 'w"
  IoCopy :: "'w \<Rightarrow> string \<Rightarrow> string \<Rightarrow> oserr option \<times> 'w"
  CloseFile :: "'w \<Rightarrow> string \<Rightarrow> oserr option \<times> 'w"

section \<open>Errors\<close>

datatype error =
  ErrPathEmpty
| ErrGetwd oserr
| ErrOutsideAllowed string
| ErrParentNotExist string
| ErrParentOutside
| ErrSymlinkOutside
| ErrFilePathEmpty
| ErrStat oserr
| ErrFileTooLarge
| ErrRead oserr
| ErrWrite oserr
| ErrNoEdits
| ErrNoMatchingLines
| ErrCouldNotApplyEdit nat error
| ErrNoFilePaths
| ErrDirPathEmpty
| ErrMaxDepth
| ErrReadDir oserr
| ErrSourceEmpty
| ErrDestEmpty
| ErrDestinationExists
| ErrCheckDestination oserr
| ErrCopy string
| ErrRemoveSource oserr
| ErrMove oserr
| ErrRootEmpty
| ErrPatternEmpty
| ErrSearch string
| ErrCreateDir oserr
| ErrGetInfo oserr

section \<open>The path validator (package security)\<close>

record PathValidator =
  allowedDirectories :: "string list"

definition NewPathValidator :: "string list \<Rightarrow> PathValidator" where
  "NewPathValidator allowedDirs = \<lparr> allowedDirectories = map Clean allowedDirs \<rparr>"

definition ExpandHomePath :: "'w OS \<Rightarrow> string \<Rightarrow> string" where
  "ExpandHomePath os p =
     (if p = ''~'' then
        (case UserHomeDir os of Inr homeDir \<Rightarrow> homeDir | Inl _ \<Rightarrow> p)
      else if length p > 1 \<and> take 2 p = ''~/'' then
        (case UserHomeDir os of Inr homeDir \<Rightarrow> Join homeDir (drop 2 p) | Inl _ \<Rightarrow> p)
      else p)"

definition isPathUnderDirectory :: "string \<Rightarrow> string \<Rightarrow> bool" where
  "isPathUnderDirectory p dir =
     (case Rel dir p of Inr rel \<Rightarrow> \<not> HasPrefix rel ''..'' | Inl _ \<Rightarrow> False)"

definition isPathAllowed :: "PathValidator \<Rightarrow> string \<Rightarrow> bool" where
  "isPathAllowed pv absolutePath =
     (let normalizedPath = Clean absolutePath
      in list_ex (\<lambda>allowedDir. isPathUnderDirectory normalizedPath allowedDir)
           (allowedDirectories pv))"

definition validateRealPath :: "'w OS \<Rightarrow> 'w \<Rightarrow> PathValidator \<Rightarrow> string \<Rightarrow> error + string" where
  "validateRealPath os w pv absolutePath =
     (case EvalSymlinks os w absolutePath of
        Inl _ \<Rightarrow>
          (let parentDir = Dir absolutePath in
           case EvalSymlinks os w parentDir of
             Inl _ \<Rightarrow> Inl (ErrParentNotExist parentDir)
           | Inr realParentPath \<Rightarrow>
               if \<not> isPathAllowed pv realParentPath then Inl ErrParentOutside
               else Inr absolutePath)
      | Inr realPath \<Rightarrow>
          if \<not> isPathAllowed pv realPath then Inl ErrSymlinkOutside
          else Inr realPath)"

definition ValidatePath :: "'w OS \<Rightarrow> 'w \<Rightarrow> PathValidator \<Rightarrow> string \<Rightarrow> error + string" where
  "ValidatePath os w pv requestedPath =
     (if requestedPath = [] then Inl ErrPathEmpty
      else
        let expandedPath = ExpandHomePath os requestedPath in
        case (if IsAbs expandedPath then Inr (Clean expandedPath)
              else (case Getwd os of
                      Inl e \<Rightarrow> Inl (ErrGetwd e)
                    | Inr workDir \<Rightarrow> Inr (Clean (Join workDir expandedPath)))) of
          Inl e \<Rightarrow> Inl e
        | Inr absolutePath \<Rightarrow>
            if \<not> isPathAllowed pv absolutePath then Inl (ErrOutsideAllowed absolutePath)
            else validateRealPath os w pv absolutePath)"

section \<open>More of package strings\<close>

text \<open>
  \<open>strings.TrimSpace\<close> removes the leading and trailing white space that
  \<open>unicode.IsSpace\<close> defines. On bytes these are the six ASCII space characters and
  the UTF-8 encodings of U+0085, U+00A0, U+1680, U+2000 to U+200A, U+2028, U+2029,
  U+202F, U+205F and U+3000.
\<close>

definition spaceRunes :: "string list" where
  "spaceRunes =
     [[TAB], [LF], [CHR 0x0B], [CHR 0x0C], [CR], [CHR 0x20],
      [CHR 0xC2, CHR 0x85], [CHR 0xC2, CHR 0xA0],
      [CHR 0xE1, CHR 0x9A, CHR 0x80],
      [CHR 0xE2, CHR 0x80, CHR 0x80], [CHR 0xE2, CHR 0x80, CHR 0x81],
      [CHR 0xE2, CHR 0x80, CHR 0x82], [CHR 0xE2, CHR 0x80, CHR 0x83],
      [CHR 0xE2, CHR 0x80, CHR 0x84], [CHR 0xE2, CHR 0x80, CHR 0x85],
      [CHR 0xE2, CHR 0x80, CHR 0x86], [CHR 0xE2, CHR 0x80, CHR 0x87],
      [CHR 0xE2, CHR 0x80, CHR 0x88], [CHR 0xE2, CHR 0x80, CHR 0x89],
      [CHR 0xE2, CHR 0x80, CHR 0x8A],
      [CHR 0xE2, CHR 0x80, CHR 0xA8], [CHR 0xE2, CHR 0x80, CHR 0xA9],
      [CHR 0xE2, CHR 0x80, CHR 0xAF], [CHR 0xE2, CHR 0x81, CHR 0x9F],
      [CHR 0xE3, CHR 0x80, CHR 0x80]]"

definition runeLen :: "string list \<Rightarrow> string \<Rightarrow> nat" where
  "runeLen runes s =
     (case find (\<lambda>r. HasPrefix s r) runes of Some r \<Rightarrow> length r | None \<Rightarrow> 0)"

function trimRunes :: "string list \<Rightarrow> string \<Rightarrow> string" where
  "trimRunes runes s =
     (let n = runeLen runes s
      in if n = 0 \<or> s = [] then s else trimRunes runes (drop n s))"
  by pat_completeness auto
termination
  by (relation "measure (\<lambda>(runes, s). length s)") auto

declare trimRunes.simps [simp del]

definition TrimSpace :: "string \<Rightarrow> string" where
  "TrimSpace s = rev (trimRunes (map rev spaceRunes) (rev (trimRunes spaceRunes s)))"

text \<open>\<open>strings.TrimLeft(s, " \t")\<close> and the regular expression \<open>^[ \t]*\<close>.\<close>

definition isBlank :: "char \<Rightarrow> bool" where
  "isBlank c = (c = CHR 0x20 \<or> c = TAB)"

definition TrimLeftBlank :: "string \<Rightarrow> string" where
  "TrimLeftBlank s = dropWhile isBlank s"

text \<open>
  Folding the ASCII letters \<open>A\<close> to \<open>Z\<close> to lower case. On strings of ASCII
  bytes this is what \<open>strings.ToLower\<close> does.
\<close>

definition lowerChar :: "char \<Rightarrow> char" where
  "lowerChar c =
     (let n = of_char c :: nat in if 65 \<le> n \<and> n \<le> 90 then char_of (n + 32) else c)"

definition lowerASCII :: "string \<Rightarrow> string" where
  "lowerASCII s = map lowerChar s"

text \<open>Decimal digits of a number, as \<open>%d\<close> prints them.\<close>

function showNat :: "nat \<Rightarrow> string" where
  "showNat n =
     (if n < 10 then [''0123456789'' ! n]
      else showNat (n div 10) @ [''0123456789'' ! (n mod 10)])"
  by pat_completeness auto
termination
  by (relation "measure id") auto

declare showNat.simps [simp del]

section \<open>Error messages\<close>

fun errorString :: "error \<Rightarrow> string" where
  "errorString ErrPathEmpty = ''path cannot be empty''"
| "errorString (ErrGetwd e) = ''failed to get working directory: '' @ messageOf e"
| "errorString (ErrOutsideAllowed p) =
     ''access denied - path outside allowed directories: '' @ p"
| "errorString (ErrParentNotExist p) = ''parent directory does not exist: '' @ p"
| "errorString ErrParentOutside =
     ''access denied - parent directory outside allowed directories''"
| "errorString ErrSymlinkOutside =
     ''access denied - symlink target outside allowed directories''"
| "errorString ErrFilePathEmpty = ''file path cannot be empty''"
| "errorString (ErrStat e) = ''failed to stat file: '' @ messageOf e"
| "errorString ErrFileTooLarge = ''file exceeds maximum allowed size''"
| "errorString (ErrRead e) = ''failed to read file: '' @ messageOf e"
| "errorString (ErrWrite e) = ''failed to write file: '' @ messageOf e"
| "errorString ErrNoEdits = ''no edits provided''"
| "errorString ErrNoMatchingLines = ''could not find matching lines for edit''"
| "errorString (ErrCouldNotApplyEdit n e) =
     ''could not apply edit '' @ showNat n @ '': '' @ errorString e"
| "errorString ErrNoFilePaths = ''no file paths provided''"
| "errorString ErrDirPathEmpty = ''directory path cannot be empty''"
| "errorString ErrMaxDepth = ''maximum directory depth exceeded''"
| "errorString (ErrReadDir e) = ''failed to read directory: '' @ messageOf e"
| "errorString ErrSourceEmpty = ''source path cannot be empty''"
| "errorString ErrDestEmpty = ''destination path cannot be empty''"
| "errorString ErrDestinationExists = ''destination already exists''"
| "errorString (ErrCheckDestination e) = ''failed to check destination: '' @ messageOf e"
| "errorString (ErrCopy m) = ''failed to copy during move: '' @ m"
| "errorString (ErrRemoveSource e) =
     ''failed to remove source after copy: '' @ messageOf e"
| "errorString (ErrMove e) = ''failed to move file: '' @ messageOf e"
| "errorString ErrRootEmpty = ''root path cannot be empty''"
| "errorString ErrPatternEmpty = ''search pattern cannot be empty''"
| "errorString (ErrSearch m) = ''failed to search files: '' @ m"
| "errorString (ErrCreateDir e) = ''failed to create directory: '' @ messageOf e"
| "errorString (ErrGetInfo e) = ''failed to get file info: '' @ messageOf e"

section \<open>Operations: reading and writing (package filesystem)\<close>

definition maxReadSize :: int where
  "maxReadSize = 1 * 1024 * 1024"

definition maxTreeDepth :: nat where
  "maxTreeDepth = 20"

definition ReadFile :: "'w OS \<Rightarrow> 'w \<Rightarrow> string \<Rightarrow> error + string" where
  "ReadFile os w filePath =
     (if filePath = [] then Inl ErrFilePathEmpty
      else case Stat os w filePath of
        Inl e \<Rightarrow> Inl (ErrStat e)
      | Inr info \<Rightarrow>
          if Size info > maxReadSize then Inl ErrFileTooLarge
          else (case ReadFileBytes os w filePath of
                  Inl e \<Rightarrow> Inl (ErrRead e)
                | Inr data \<Rightarrow> Inr data))"

text \<open>The body of the loop of \<open>ReadMultipleFiles\<close>: the text for one path.\<close>

definition readOne :: "'w OS \<Rightarrow> 'w \<Rightarrow> string \<Rightarrow> string" where
  "readOne os w filePath =
     (case ReadFile os w filePath of
        Inl err \<Rightarrow> filePath @ '': Error - '' @ errorString err
      | Inr content \<Rightarrow> filePath @ [CHR '':'', LF] @ content @ [LF])"

definition ReadMultipleFiles :: "'w OS \<Rightarrow> 'w \<Rightarrow> string list \<Rightarrow> error + string" where
  "ReadMultipleFiles os w filePaths =
     (if filePaths = [] then Inl ErrNoFilePaths
      else Inr (JoinStrings (map (readOne os w) filePaths) ([LF] @ ''---'' @ [LF])))"

text \<open>The permission bits \<open>0644\<close> and \<open>0755\<close> (octal).\<close>

definition perm0644 :: nat where "perm0644 = 6 * 64 + 4 * 8 + 4"
definition perm0755 :: nat where "perm0755 = 7 * 64 + 5 * 8 + 5"

definition WriteFile :: "'w OS \<Rightarrow> 'w \<Rightarrow> string \<Rightarrow> string \<Rightarrow> error option \<times> 'w" where
  "WriteFile os w filePath content =
     (if filePath = [] then (Some ErrFilePathEmpty, w)
      else case WriteFileBytes os w filePath content perm0644 of
        (Some e, w') \<Rightarrow> (Some (ErrWrite e), w')
      | (None, w') \<Rightarrow> (None, w'))"

section \<open>Operations: editing\<close>

record EditOperation =
  OldText :: string
  NewText :: string

text \<open>\<open>strings.ReplaceAll(text, "\r\n", "\n")\<close>.\<close>

fun normalizeLineEndings :: "string \<Rightarrow> string" where
  "normalizeLineEndings (c # d # cs) =
     (if c = CR \<and> d = LF then LF # normalizeLineEndings cs
      else c # normalizeLineEndings (d # cs))"
| "normalizeLineEndings cs = cs"

definition extractIndentation :: "string \<Rightarrow> string" where
  "extractIndentation line = takeWhile isBlank line"

fun linesMatchFrom :: "string list \<Rightarrow> string list \<Rightarrow> bool" where
  "linesMatchFrom (c # cs) (l # ls) =
     (if TrimSpace c \<noteq> TrimSpace l then False else linesMatchFrom cs ls)"
| "linesMatchFrom cs ls = True"

definition linesMatch :: "string list \<Rightarrow> string list \<Rightarrow> bool" where
  "linesMatch contentLines oldLines =
     (if length contentLines \<noteq> length oldLines then False
      else linesMatchFrom contentLines oldLines)"

text \<open>
  The search loop of \<open>applyLineBasedEdit\<close>: \<open>i\<close> runs from 0 while
  \<open>i \<le> len(contentLines) - len(oldLines)\<close> (a signed difference), and the first
  index whose window matches is taken.
\<close>

function findMatchingLines :: "string list \<Rightarrow> string list \<Rightarrow> nat \<Rightarrow> nat option" where
  "findMatchingLines contentLines oldLines i =
     (if int i \<le> int (length contentLines) - int (length oldLines) then
        (if linesMatch (take (length oldLines) (drop i contentLines)) oldLines
         then Some i
         else findMatchingLines contentLines oldLines (i + 1))
      else None)"
  by pat_completeness auto
termination
  by (relation "measure (\<lambda>(contentLines, oldLines, i). Suc (length contentLines) - i)") auto

declare findMatchingLines.simps [simp del]

definition applyLineBasedEdit :: "string \<Rightarrow> string \<Rightarrow> string \<Rightarrow> error + string" where
  "applyLineBasedEdit content oldText newText =
     (let oldLines = Split oldText LF;
          contentLines = Split content LF
      in case findMatchingLines contentLines oldLines 0 of
           None \<Rightarrow> Inl ErrNoMatchingLines
         | Some i \<Rightarrow>
             let newLines = Split newText LF;
                 newLines' =
                   (if length newLines > 0 \<and> length contentLines > i
                    then (extractIndentation (contentLines ! i) @ TrimLeftBlank (hd newLines))
                           # tl newLines
                    else newLines)
             in Inr (JoinStrings
                       (take i contentLines @ newLines'
                          @ drop (i + length oldLines) contentLines) [LF]))"

text \<open>The loop of \<open>applyEdits\<close>, with the index \<open>i\<close> of the edit at hand.\<close>

fun applyEditsFrom :: "nat \<Rightarrow> string \<Rightarrow> EditOperation list \<Rightarrow> error + string" where
  "applyEditsFrom i modifiedContent [] = Inr modifiedContent"
| "applyEditsFrom i modifiedContent (edit # edits) =
     (let oldText = normalizeLineEndings (OldText edit);
          newText = normalizeLineEndings (NewText edit)
      in if Contains modifiedContent oldText
         then applyEditsFrom (i + 1) (Replace1 modifiedContent oldText newText) edits
         else (case applyLineBasedEdit modifiedContent oldText newText of
                 Inl err \<Rightarrow> Inl (ErrCouldNotApplyEdit (i + 1) err)
               | Inr modifiedContent' \<Rightarrow> applyEditsFrom (i + 1) modifiedContent' edits))"

definition applyEdits :: "string \<Rightarrow> EditOperation list \<Rightarrow> error + string" where
  "applyEdits content edits = applyEditsFrom 0 (normalizeLineEndings content) edits"

text \<open>
  \<open>createUnifiedDiff\<close>: the patch text comes from the diff library (\<open>DiffMain\<close>,
  \<open>PatchMake\<close>, \<open>PatchToText\<close>), which is a parameter \<open>patchText\<close> here; the
  fence of backticks grows until the patch does not contain it, up to eleven.
\<close>

function countBackticks :: "string \<Rightarrow> nat \<Rightarrow> nat" where
  "countBackticks patch numBackticks =
     (if Contains patch (replicate numBackticks (CHR 0x60))
      then (if numBackticks + 1 > 10 then numBackticks + 1
            else countBackticks patch (numBackticks + 1))
      else numBackticks)"
  by pat_completeness auto
termination
  by (relation "measure (\<lambda>(patch, n). 11 - n)") auto

declare countBackticks.simps [simp del]

definition createUnifiedDiff ::
  "(string \<Rightarrow> string \<Rightarrow> string) \<Rightarrow> string \<Rightarrow> string \<Rightarrow> string \<Rightarrow> string" where
  "createUnifiedDiff patchText original modified filename =
     (let patch = patchText original modified;
          backticks = replicate (countBackticks patch 3) (CHR 0x60)
      in backticks @ ''diff'' @ [LF] @ patch @ backticks @ [LF, LF])"

definition EditFile ::
  "'w OS \<Rightarrow> (string \<Rightarrow> string \<Rightarrow> string) \<Rightarrow> 'w \<Rightarrow> string \<Rightarrow> EditOperation list \<Rightarrow> bool
     \<Rightarrow> (error + string) \<times> 'w" where
  "EditFile os patchText w filePath edits dryRun =
     (if filePath = [] then (Inl ErrFilePathEmpty, w)
      else if edits = [] then (Inl ErrNoEdits, w)
      else case ReadFile os w filePath of
        Inl err \<Rightarrow> (Inl err, w)
      | Inr originalContent \<Rightarrow>
          (case applyEdits originalContent edits of
             Inl err \<Rightarrow> (Inl err, w)
           | Inr modifiedContent \<Rightarrow>
               let diff = createUnifiedDiff patchText originalContent modifiedContent filePath
               in if \<not> dryRun then
                    (case WriteFile os w filePath modifiedContent of
                       (Some err, w') \<Rightarrow> (Inl err, w')
                     | (None, w') \<Rightarrow> (Inr diff, w'))
                  else (Inr diff, w)))"

section \<open>Operations: the directory tree\<close>

datatype TreeEntry =
  TreeEntry (Name: string) (Type: string) (Children: "TreeEntry list option")

text \<open>\<open>filepath.Abs\<close>.\<close>

definition Abs :: "'w OS \<Rightarrow> string \<Rightarrow> oserr + string" where
  "Abs os p =
     (if IsAbs p then Inr (Clean p)
      else case Getwd os of Inl e \<Rightarrow> Inl e | Inr wd \<Rightarrow> Inr (Join wd p))"

text \<open>
  \<open>buildTree\<close> and the loop over the entries of one directory. The map \<open>visited\<close> is
  shared by all recursive calls: it is passed in and returned. The loop appends to
  \<open>result\<close>; here the entries that follow are built and the entry at hand is put in
  front of them.
\<close>

definition realPathOf :: "'w OS \<Rightarrow> 'w \<Rightarrow> string \<Rightarrow> string" where
  "realPathOf os w dirPath =
     (let realPath = (case EvalSymlinks os w dirPath of
                        Inl _ \<Rightarrow> Clean dirPath
                      | Inr r \<Rightarrow> r)
      in case Abs os realPath of Inr absPath \<Rightarrow> absPath | Inl _ \<Rightarrow> realPath)"

function buildTree ::
    "'w OS \<Rightarrow> 'w \<Rightarrow> PathValidator \<Rightarrow> string \<Rightarrow> string set \<Rightarrow> nat
       \<Rightarrow> (error + TreeEntry list) \<times> string set"
  and buildEntries ::
    "'w OS \<Rightarrow> 'w \<Rightarrow> PathValidator \<Rightarrow> string \<Rightarrow> (string \<times> bool) list \<Rightarrow> string set \<Rightarrow> nat
       \<Rightarrow> TreeEntry list \<times> string set"
where
  "buildTree os w pv dirPath visited depth =
     (if depth > maxTreeDepth then (Inl ErrMaxDepth, visited)
      else
        let realPath = realPathOf os w dirPath in
        if realPath \<in> visited then (Inr [], visited)
        else
          let visited' = insert realPath visited in
          case ReadDir os w dirPath of
            Inl e \<Rightarrow> (Inl (ErrReadDir e), visited')
          | Inr entries \<Rightarrow>
              (case buildEntries os w pv dirPath entries visited' depth of
                 (result, visited'') \<Rightarrow> (Inr result, visited'')))"
| "buildEntries os w pv dirPath [] visited depth = ([], visited)"
| "buildEntries os w pv dirPath (entry # entries) visited depth =
     (if snd entry then
        (let subPath = Join dirPath (fst entry) in
         case ValidatePath os w pv subPath of
           Inl _ \<Rightarrow> buildEntries os w pv dirPath entries visited depth
         | Inr validPath \<Rightarrow>
             (case buildTree os w pv validPath visited (depth + 1) of
                (sub, visited') \<Rightarrow>
                  let children = (case sub of Inl _ \<Rightarrow> [] | Inr cs \<Rightarrow> cs) in
                  case buildEntries os w pv dirPath entries visited' depth of
                    (rest, visited'') \<Rightarrow>
                      (TreeEntry (fst entry) ''directory'' (Some children) # rest, visited'')))
      else
        (case buildEntries os w pv dirPath entries visited depth of
           (rest, visited') \<Rightarrow> (TreeEntry (fst entry) ''file'' None # rest, visited')))"
  by pat_completeness auto
termination
  by (relation "inv_image (less_than <*lex*> less_than)
        (\<lambda>x. case x of
           Inl (os, w, pv, dirPath, visited, depth) \<Rightarrow> (maxTreeDepth + 2 - depth, 0)
         | Inr (os, w, pv, dirPath, entries, visited, depth) \<Rightarrow>
             (maxTreeDepth + 1 - depth, Suc (length entries)))") auto

declare buildTree.simps [simp del] buildEntries.simps [simp del]

text \<open>
  \<open>DirectoryTree\<close>. The source validates the path twice and calls \<open>buildTree\<close>
  without its depth argument; the root is built at depth 0. The result is the tree that
  \<open>json.MarshalIndent\<close> then prints.
\<close>

definition DirectoryTree ::
  "'w OS \<Rightarrow> 'w \<Rightarrow> PathValidator \<Rightarrow> string \<Rightarrow> error + TreeEntry list" where
  "DirectoryTree os w pv dirPath =
     (if dirPath = [] then Inl ErrDirPathEmpty
      else case ValidatePath os w pv dirPath of
        Inl err \<Rightarrow> Inl err
      | Inr _ \<Rightarrow>
          (case ValidatePath os w pv dirPath of
             Inl err \<Rightarrow> Inl err
           | Inr validPath \<Rightarrow>
               (case fst (buildTree os w pv validPath {} 0) of
                  Inl err \<Rightarrow> Inl err
                | Inr tree \<Rightarrow> Inr tree)))"

section \<open>Walking a directory (filepath.WalkDir)\<close>

text \<open>
  The callback of \<open>filepath.WalkDir\<close> gets the path and either an entry (no error) or
  an error, and returns \<open>nil\<close>, \<open>SkipDir\<close>, \<open>SkipAll\<close> or an error of its own. The
  state \<open>'s\<close> is what the callback's closure updates. The walk enumerates the tree
  as it is when the walk starts.
\<close>

datatype 'e walkret = WalkNil | WalkSkipDir | WalkSkipAll | WalkErr 'e

datatype walkarg = Entry string bool | Failed oserr

fun nodeName :: "DirTree \<Rightarrow> string" where
  "nodeName (FileNode n) = n"
| "nodeName (DirNode n cs e) = n"

fun walkDir ::
    "string \<Rightarrow> DirTree \<Rightarrow> (string \<Rightarrow> walkarg \<Rightarrow> 's \<Rightarrow> 'e walkret \<times> 's) \<Rightarrow> 's \<Rightarrow> 'e walkret \<times> 's"
  and walkEntries ::
    "string \<Rightarrow> DirTree list \<Rightarrow> (string \<Rightarrow> walkarg \<Rightarrow> 's \<Rightarrow> 'e walkret \<times> 's) \<Rightarrow> 's
       \<Rightarrow> 'e walkret \<times> 's"
where
  "walkDir path (FileNode name) fn s = fn path (Entry name False) s"
| "walkDir path (DirNode name dirs rderr) fn s =
     (case fn path (Entry name True) s of
        (WalkNil, s1) \<Rightarrow>
          (case (case rderr of
                   None \<Rightarrow> (WalkNil, s1)
                 | Some err \<Rightarrow> fn path (Failed err) s1) of
             (WalkNil, s2) \<Rightarrow> walkEntries path dirs fn s2
           | (WalkSkipDir, s2) \<Rightarrow> (WalkNil, s2)
           | (r, s2) \<Rightarrow> (r, s2))
      | (WalkSkipDir, s1) \<Rightarrow> (WalkNil, s1)
      | (r, s1) \<Rightarrow> (r, s1))"
| "walkEntries path [] fn s = (WalkNil, s)"
| "walkEntries path (d1 # dirs) fn s =
     (case walkDir (Join path (nodeName d1)) d1 fn s of
        (WalkNil, s1) \<Rightarrow> walkEntries path dirs fn s1
      | (WalkSkipDir, s1) \<Rightarrow> (WalkNil, s1)
      | (r, s1) \<Rightarrow> (r, s1))"

definition WalkDir ::
  "'w OS \<Rightarrow> 'w \<Rightarrow> string \<Rightarrow> (string \<Rightarrow> walkarg \<Rightarrow> 's \<Rightarrow> 'e walkret \<times> 's) \<Rightarrow> 's
     \<Rightarrow> 'e walkret \<times> 's" where
  "WalkDir os w root fn s =
     (case (case LstatTree os w root of
              Inl err \<Rightarrow> fn root (Failed err) s
            | Inr info \<Rightarrow> walkDir root info fn s) of
        (WalkSkipDir, s') \<Rightarrow> (WalkNil, s')
      | (WalkSkipAll, s') \<Rightarrow> (WalkNil, s')
      | (r, s') \<Rightarrow> (r, s'))"

section \<open>Operations: moving\<close>

text \<open>
  Errors of the copy are library errors of two kinds; they are carried as their message.
\<close>

definition copyFile :: "'w OS \<Rightarrow> 'w \<Rightarrow> string \<Rightarrow> string \<Rightarrow> nat \<Rightarrow> oserr option \<times> 'w" where
  "copyFile os w src dst perm =
     (case MkdirAll os w (Dir dst) perm0755 of
        (Some e, w1) \<Rightarrow> (Some e, w1)
      | (None, w1) \<Rightarrow>
          (case OpenRead os w1 src of
             Inl e \<Rightarrow> (Some e, w1)
           | Inr bytes \<Rightarrow>
               (case OpenFileTrunc os w1 dst perm of
                  (Some e, w2) \<Rightarrow> (Some e, w2)
                | (None, w2) \<Rightarrow>
                    (case IoCopy os w2 dst bytes of
                       (Some e, w3) \<Rightarrow> (Some e, snd (CloseFile os w3 dst))
                     | (None, w3) \<Rightarrow> CloseFile os w3 dst))))"

definition copyDirFn ::
  "'w OS \<Rightarrow> string \<Rightarrow> string \<Rightarrow> string \<Rightarrow> walkarg \<Rightarrow> 'w \<Rightarrow> string walkret \<times> 'w" where
  "copyDirFn os srcDir dstDir path arg w =
     (case arg of
        Failed err \<Rightarrow> (WalkErr (messageOf err), w)
      | Entry name isDir \<Rightarrow>
          (case Rel srcDir path of
             Inl _ \<Rightarrow> (WalkErr (''Rel: can't make '' @ path @ '' relative to '' @ srcDir), w)
           | Inr rel \<Rightarrow>
               (let target = Join dstDir rel in
                (case EntryInfo os w path of
                   Inl e \<Rightarrow> (WalkErr (messageOf e), w)
                 | Inr info \<Rightarrow>
                     (case (if isDir then MkdirAll os w target (Mode info)
                            else copyFile os w path target (Mode info)) of
                        (Some e, w') \<Rightarrow> (WalkErr (messageOf e), w')
                      | (None, w') \<Rightarrow> (WalkNil, w'))))))"

definition copyDir :: "'w OS \<Rightarrow> 'w \<Rightarrow> string \<Rightarrow> string \<Rightarrow> string option \<times> 'w" where
  "copyDir os w srcDir dstDir =
     (case WalkDir os w srcDir (copyDirFn os srcDir dstDir) w of
        (WalkErr m, w') \<Rightarrow> (Some m, w')
      | (_, w') \<Rightarrow> (None, w'))"

definition copyRecursive :: "'w OS \<Rightarrow> 'w \<Rightarrow> string \<Rightarrow> string \<Rightarrow> string option \<times> 'w" where
  "copyRecursive os w src dst =
     (case Stat os w src of
        Inl e \<Rightarrow> (Some (messageOf e), w)
      | Inr info \<Rightarrow>
          if IsDir info then copyDir os w src dst
          else (case copyFile os w src dst (Mode info) of
                  (Some e, w') \<Rightarrow> (Some (messageOf e), w')
                | (None, w') \<Rightarrow> (None, w')))"

definition MoveFile :: "'w OS \<Rightarrow> 'w \<Rightarrow> string \<Rightarrow> string \<Rightarrow> error option \<times> 'w" where
  "MoveFile os w sourcePath destPath =
     (if sourcePath = [] then (Some ErrSourceEmpty, w)
      else if destPath = [] then (Some ErrDestEmpty, w)
      else case Stat os w destPath of
        Inr _ \<Rightarrow> (Some ErrDestinationExists, w)
      | Inl err \<Rightarrow>
          if \<not> IsNotExist err then (Some (ErrCheckDestination err), w)
          else
            (case Rename os w sourcePath destPath of
               (None, w1) \<Rightarrow> (None, w1)
             | (Some err, w1) \<Rightarrow>
                 if errnoOf err = EXDEV then
                   (case copyRecursive os w1 sourcePath destPath of
                      (Some copyErr, w2) \<Rightarrow> (Some (ErrCopy copyErr), w2)
                    | (None, w2) \<Rightarrow>
                        (case RemoveAll os w2 sourcePath of
                           (Some rmErr, w3) \<Rightarrow> (Some (ErrRemoveSource rmErr), w3)
                         | (None, w3) \<Rightarrow> (None, w3)))
                 else (Some (ErrMove err), w1)))"

section \<open>Operations: searching\<close>

text \<open>
  Two library functions are taken as they are, as the fields of a record:
  \<open>strings.ToLower\<close>, and \<open>doublestar.Match\<close>, which gives whether the name
  matches the pattern, or nothing when it reports a malformed pattern. What is proved for
  every such record holds for the libraries themselves.
\<close>

record Library =
  ToLower :: "string \<Rightarrow> string"
  Match :: "string \<Rightarrow> string \<Rightarrow> bool option"

text \<open>
  Glob matching for patterns made of literal bytes, \<open>?\<close>, \<open>*\<close> and \<open>**\<close>,
  as \<open>doublestar.Match\<close> does it for such patterns: the pattern and the name are
  compared element by element; an element \<open>**\<close> stands for any number of elements,
  none included (so \<open>a/**\<close> matches \<open>a\<close> itself); inside an element \<open>*\<close>
  stands for any bytes and \<open>?\<close> for one. It is used to run the search on examples
  whose patterns have no character class, alternative or escape.
\<close>

fun globElem :: "string \<Rightarrow> string \<Rightarrow> bool" where
  "globElem [] [] = True"
| "globElem [] (c # cs) = False"
| "globElem (p # ps) [] = (p = CHR ''*'' \<and> globElem ps [])"
| "globElem (p # ps) (c # cs) =
     (if p = CHR ''*'' then globElem ps (c # cs) \<or> globElem (p # ps) cs
      else (p = CHR ''?'' \<or> p = c) \<and> globElem ps cs)"

fun matchElems :: "string list \<Rightarrow> string list \<Rightarrow> bool" where
  "matchElems [] [] = True"
| "matchElems [] (n # ns) = False"
| "matchElems (p # ps) [] = (p = ''**'' \<and> matchElems ps [])"
| "matchElems (p # ps) (n # ns) =
     (if p = ''**'' then matchElems ps (n # ns) \<or> matchElems (p # ps) ns
      else globElem p n \<and> matchElems ps ns)"

definition globMatch :: "string \<Rightarrow> string \<Rightarrow> bool" where
  "globMatch pattern name =
     matchElems (Split pattern Separator) (Split name Separator)"

definition exampleLibrary :: Library where
  "exampleLibrary =
     \<lparr> ToLower = lowerASCII, Match = (\<lambda>pattern name. Some (globMatch pattern name)) \<rparr>"

fun shouldExclude :: "Library \<Rightarrow> string \<Rightarrow> string list \<Rightarrow> bool" where
  "shouldExclude lib relativePath [] = False"
| "shouldExclude lib relativePath (pattern # excludePatterns) =
     (let pattern' = (if \<not> Contains pattern ''*'' then ''**/'' @ pattern @ ''/**''
                      else pattern)
      in if Match lib pattern' relativePath = Some True then True
         else shouldExclude lib relativePath excludePatterns)"

definition searchFn ::
  "Library \<Rightarrow> 'w OS \<Rightarrow> 'w \<Rightarrow> PathValidator \<Rightarrow> string \<Rightarrow> string \<Rightarrow> string list
     \<Rightarrow> string \<Rightarrow> walkarg \<Rightarrow> string list \<Rightarrow> string walkret \<times> string list" where
  "searchFn lib os w pv rootPath lowerPattern excludePatterns path arg results =
     (case arg of
        Failed err \<Rightarrow> (WalkNil, results)
      | Entry name isDir \<Rightarrow>
          (case ValidatePath os w pv path of
             Inl _ \<Rightarrow> (if isDir then WalkSkipDir else WalkNil, results)
           | Inr _ \<Rightarrow>
               if (case Rel rootPath path of
                     Inr relativePath \<Rightarrow> shouldExclude lib relativePath excludePatterns
                   | Inl _ \<Rightarrow> False)
               then (if isDir then WalkSkipDir else WalkNil, results)
               else if Contains (ToLower lib name) lowerPattern
                    then (WalkNil, results @ [path])
                    else (WalkNil, results)))"

definition SearchFiles ::
  "Library \<Rightarrow> 'w OS \<Rightarrow> 'w \<Rightarrow> PathValidator \<Rightarrow> string \<Rightarrow> string \<Rightarrow> string list \<Rightarrow> error + string list" where
  "SearchFiles lib os w pv rootPath pattern excludePatterns =
     (if rootPath = [] then Inl ErrRootEmpty
      else if pattern = [] then Inl ErrPatternEmpty
      else
        let lowerPattern = ToLower lib pattern in
        case WalkDir os w rootPath
               (searchFn lib os w pv rootPath lowerPattern excludePatterns) [] of
          (WalkErr m, results) \<Rightarrow> Inl (ErrSearch m)
        | (_, results) \<Rightarrow> Inr results)"

section \<open>Operations: directories and metadata\<close>

definition CreateDirectory :: "'w OS \<Rightarrow> 'w \<Rightarrow> string \<Rightarrow> error option \<times> 'w" where
  "CreateDirectory os w dirPath =
     (if dirPath = [] then (Some ErrDirPathEmpty, w)
      else case MkdirAll os w dirPath perm0755 of
        (Some e, w') \<Rightarrow> (Some (ErrCreateDir e), w')
      | (None, w') \<Rightarrow> (None, w'))"

text \<open>The body of the loop of \<open>ListDirectory\<close>: the line for one entry.\<close>

definition listLine :: "string \<times> bool \<Rightarrow> string" where
  "listLine entry = (if snd entry then ''[DIR]'' else ''[FILE]'') @ '' '' @ fst entry"

definition ListDirectory :: "'w OS \<Rightarrow> 'w \<Rightarrow> string \<Rightarrow> error + string" where
  "ListDirectory os w dirPath =
     (if dirPath = [] then Inl ErrDirPathEmpty
      else case ReadDir os w dirPath of
        Inl e \<Rightarrow> Inl (ErrReadDir e)
      | Inr entries \<Rightarrow> Inr (JoinStrings (map listLine entries) [LF]))"

record FileInfo =
  InfoSize :: int
  Created :: int
  Modified :: int
  Accessed :: int
  IsDirectory :: bool
  IsFile :: bool
  Permissions :: string

text \<open>Octal digits of a number, as \<open>%o\<close> prints them.\<close>

function showOct :: "nat \<Rightarrow> string" where
  "showOct n =
     (if n < 8 then [''01234567'' ! n]
      else showOct (n div 8) @ [''01234567'' ! (n mod 8)])"
  by pat_completeness auto
termination
  by (relation "measure id") auto

declare showOct.simps [simp del]

definition GetFileInfo :: "'w OS \<Rightarrow> 'w \<Rightarrow> string \<Rightarrow> error + FileInfo" where
  "GetFileInfo os w filePath =
     (if filePath = [] then Inl ErrFilePathEmpty
      else case Stat os w filePath of
        Inl e \<Rightarrow> Inl (ErrGetInfo e)
      | Inr stat \<Rightarrow>
          Inr \<lparr> InfoSize = Size stat,
                Created = (case SysTimes stat of Some sys \<Rightarrow> fst sys | None \<Rightarrow> ModTime stat),
                Modified = ModTime stat,
                Accessed = (case SysTimes stat of Some sys \<Rightarrow> snd sys | None \<Rightarrow> ModTime stat),
                IsDirectory = IsDir stat,
                IsFile = IsRegular stat,
                Permissions = showOct (Mode stat mod 512) \<rparr>)"

section \<open>Tool handlers (package handlers)\<close>

text \<open>
  The handlers after the request's arguments are taken out of the argument map:
  \<open>getRequiredString\<close> refuses an empty string, \<open>getRequiredStringSlice\<close> keeps the
  non-empty strings among the first hundred and refuses an empty result.
\<close>

datatype ToolResult = ToolResultText string | ToolResultError string

definition handleReadFile :: "'w OS \<Rightarrow> 'w \<Rightarrow> PathValidator \<Rightarrow> string \<Rightarrow> ToolResult" where
  "handleReadFile os w pv path =
     (if path = [] then ToolResultError ''Path parameter is required''
      else case ValidatePath os w pv path of
        Inl err \<Rightarrow> ToolResultError (''Error: '' @ errorString err)
      | Inr validPath \<Rightarrow>
          (case ReadFile os w validPath of
             Inl err \<Rightarrow> ToolResultError (''Error: '' @ errorString err)
           | Inr content \<Rightarrow> ToolResultText content))"

text \<open>
  The body of the validation loop of \<open>handleReadMultipleFiles\<close>: the validated path,
  or the path as it came when validation fails.
\<close>

definition validatedOrSame :: "'w OS \<Rightarrow> 'w \<Rightarrow> PathValidator \<Rightarrow> string \<Rightarrow> string" where
  "validatedOrSame os w pv path =
     (case ValidatePath os w pv path of
        Inl _ \<Rightarrow> path
      | Inr validPath \<Rightarrow> validPath)"

definition handleReadMultipleFiles ::
  "'w OS \<Rightarrow> 'w \<Rightarrow> PathValidator \<Rightarrow> string list \<Rightarrow> ToolResult" where
  "handleReadMultipleFiles os w pv raw =
     (let pathsSlice = filter (\<lambda>s. s \<noteq> []) (take 100 raw) in
      if pathsSlice = [] then ToolResultError ''Paths parameter is required''
      else
        let paths = map (validatedOrSame os w pv) (take 100 pathsSlice) in
        if paths = [] then ToolResultError ''No valid paths provided''
        else case ReadMultipleFiles os w paths of
          Inl err \<Rightarrow> ToolResultError (''Error: '' @ errorString err)
        | Inr content \<Rightarrow> ToolResultText content)"

definition handleWriteFile ::
  "'w OS \<Rightarrow> 'w \<Rightarrow> PathValidator \<Rightarrow> string \<Rightarrow> string \<Rightarrow> ToolResult \<times> 'w" where
  "handleWriteFile os w pv path content =
     (if path = [] then (ToolResultError ''Path parameter is required'', w)
      else if content = [] then (ToolResultError ''Content parameter is required'', w)
      else case ValidatePath os w pv path of
        Inl err \<Rightarrow> (ToolResultError (''Error: '' @ errorString err), w)
      | Inr validPath \<Rightarrow>
          (case WriteFile os w validPath content of
             (Some err, w') \<Rightarrow> (ToolResultError (''Error: '' @ errorString err), w')
           | (None, w') \<Rightarrow> (ToolResultText (''Successfully wrote to '' @ path), w')))"

text \<open>
  \<open>getEditOperations\<close> keeps the well-formed edits among the first hundred and refuses
  an empty result; \<open>dryRun\<close> is false when absent.
\<close>

definition handleEditFile ::
  "'w OS \<Rightarrow> (string \<Rightarrow> string \<Rightarrow> string) \<Rightarrow> 'w \<Rightarrow> PathValidator \<Rightarrow> string
     \<Rightarrow> EditOperation list \<Rightarrow> bool \<Rightarrow> ToolResult \<times> 'w" where
  "handleEditFile os patchText w pv path rawEdits dryRun =
     (if path = [] then (ToolResultError ''Path parameter is required'', w)
      else
        let edits = take 100 rawEdits in
        if edits = [] then (ToolResultError ''No valid edits provided'', w)
        else case ValidatePath os w pv path of
          Inl err \<Rightarrow> (ToolResultError (''Error: '' @ errorString err), w)
        | Inr validPath \<Rightarrow>
            (case EditFile os patchText w validPath edits dryRun of
               (Inl err, w') \<Rightarrow> (ToolResultError (''Error: '' @ errorString err), w')
             | (Inr diff, w') \<Rightarrow> (ToolResultText diff, w')))"

definition handleCreateDirectory ::
  "'w OS \<Rightarrow> 'w \<Rightarrow> PathValidator \<Rightarrow> string \<Rightarrow> ToolResult \<times> 'w" where
  "handleCreateDirectory os w pv path =
     (if path = [] then (ToolResultError ''Path parameter is required'', w)
      else case ValidatePath os w pv path of
        Inl err \<Rightarrow> (ToolResultError (''Error: '' @ errorString err), w)
      | Inr validPath \<Rightarrow>
          (case CreateDirectory os w validPath of
             (Some err, w') \<Rightarrow> (ToolResultError (''Error: '' @ errorString err), w')
           | (None, w') \<Rightarrow>
               (ToolResultText (''Successfully created directory '' @ path), w')))"

definition handleListDirectory :: "'w OS \<Rightarrow> 'w \<Rightarrow> PathValidator \<Rightarrow> string \<Rightarrow> ToolResult" where
  "handleListDirectory os w pv path =
     (if path = [] then ToolResultError ''Path parameter is required''
      else case ValidatePath os w pv path of
        Inl err \<Rightarrow> ToolResultError (''Error: '' @ errorString err)
      | Inr validPath \<Rightarrow>
          (case ListDirectory os w validPath of
             Inl err \<Rightarrow> ToolResultError (''Error: '' @ errorString err)
           | Inr listing \<Rightarrow> ToolResultText listing))"

text \<open>
  \<open>DirectoryTree\<close> gives the tree; \<open>marshalTree\<close> is \<open>json.MarshalIndent\<close>,
  which prints it.
\<close>

definition handleDirectoryTree ::
  "'w OS \<Rightarrow> (TreeEntry list \<Rightarrow> string) \<Rightarrow> 'w \<Rightarrow> PathValidator \<Rightarrow> string \<Rightarrow> ToolResult" where
  "handleDirectoryTree os marshalTree w pv path =
     (if path = [] then ToolResultError ''Path parameter is required''
      else case ValidatePath os w pv path of
        Inl err \<Rightarrow> ToolResultError (''Error: '' @ errorString err)
      | Inr validPath \<Rightarrow>
          (case DirectoryTree os w pv validPath of
             Inl err \<Rightarrow> ToolResultError (''Error: '' @ errorString err)
           | Inr tree \<Rightarrow> ToolResultText (marshalTree tree)))"

definition handleMoveFile ::
  "'w OS \<Rightarrow> 'w \<Rightarrow> PathValidator \<Rightarrow> string \<Rightarrow> string \<Rightarrow> ToolResult \<times> 'w" where
  "handleMoveFile os w pv source destination =
     (if source = [] then (ToolResultError ''Source parameter is required'', w)
      else if destination = [] then (ToolResultError ''Destination parameter is required'', w)
      else case ValidatePath os w pv source of
        Inl err \<Rightarrow> (ToolResultError (''Error: '' @ errorString err), w)
      | Inr validSource \<Rightarrow>
          (case ValidatePath os w pv destination of
             Inl err \<Rightarrow> (ToolResultError (''Error: '' @ errorString err), w)
           | Inr validDestination \<Rightarrow>
               (case MoveFile os w validSource validDestination of
                  (Some err, w') \<Rightarrow> (ToolResultError (''Error: '' @ errorString err), w')
                | (None, w') \<Rightarrow>
                    (ToolResultText
                       (''Successfully moved '' @ source @ '' to '' @ destination), w'))))"

definition handleSearchFiles ::
  "Library \<Rightarrow> 'w OS \<Rightarrow> 'w \<Rightarrow> PathValidator \<Rightarrow> string \<Rightarrow> string \<Rightarrow> string list \<Rightarrow> ToolResult" where
  "handleSearchFiles lib os w pv path pattern rawExcludes =
     (if path = [] then ToolResultError ''Path parameter is required''
      else if pattern = [] then ToolResultError ''Pattern parameter is required''
      else
        let excludePatterns = take 100 rawExcludes in
        case ValidatePath os w pv path of
          Inl err \<Rightarrow> ToolResultError (''Error: '' @ errorString err)
        | Inr validPath \<Rightarrow>
            (case SearchFiles lib os w pv validPath pattern excludePatterns of
               Inl err \<Rightarrow> ToolResultError (''Error: '' @ errorString err)
             | Inr results \<Rightarrow>
                 if results = [] then ToolResultText ''No matches found''
                 else ToolResultText (JoinStrings results [LF])))"

text \<open>\<open>marshalInfo\<close> is \<open>json.MarshalIndent\<close> of the file information.\<close>

definition handleGetFileInfo ::
  "'w OS \<Rightarrow> (FileInfo \<Rightarrow> string option) \<Rightarrow> 'w \<Rightarrow> PathValidator \<Rightarrow> string \<Rightarrow> ToolResult" where
  "handleGetFileInfo os marshalInfo w pv path =
     (if path = [] then ToolResultError ''Path parameter is required''
      else case ValidatePath os w pv path of
        Inl err \<Rightarrow> ToolResultError (''Error: '' @ errorString err)
      | Inr validPath \<Rightarrow>
          (case GetFileInfo os w validPath of
             Inl err \<Rightarrow> ToolResultError (''Error: '' @ errorString err)
           | Inr info \<Rightarrow>
               (case marshalInfo info of
                  None \<Rightarrow> ToolResultError ''Failed to format file info''
                | Some infoJSON \<Rightarrow> ToolResultText infoJSON)))"

section \<open>A table-driven filesystem\<close>

text \<open>
  A small filesystem on which the operations can be run: files with their bytes,
  directories with their listings, the paths that resolve through a symbolic link with
  their real paths, and the trees a walk enumerates. It is one instance of the record
  \<open>OS\<close>.
\<close>

record world =
  files :: "(string \<times> string) list"
  dirs :: "(string \<times> (string \<times> bool) list) list"
  links :: "(string \<times> string) list"
  trees :: "(string \<times> DirTree) list"

definition noEntry :: "string \<Rightarrow> oserr" where
  "noEntry p = OsError ENOENT (p @ '': no such file or directory'')"

definition resolve :: "world \<Rightarrow> string \<Rightarrow> string" where
  "resolve w p = (case map_of (links w) p of Some t \<Rightarrow> t | None \<Rightarrow> p)"

definition putFile :: "string \<Rightarrow> string \<Rightarrow> world \<Rightarrow> world" where
  "putFile p bytes w = w\<lparr>files := (p, bytes) # filter (\<lambda>f. fst f \<noteq> p) (files w)\<rparr>"

definition fileStat :: "int \<Rightarrow> FileStat" where
  "fileStat n =
     \<lparr>Size = n, IsDir = False, IsRegular = True, Mode = perm0644, ModTime = 0,
      SysTimes = None\<rparr>"

definition dirStat :: FileStat where
  "dirStat =
     \<lparr>Size = 0, IsDir = True, IsRegular = False, Mode = perm0755, ModTime = 0,
      SysTimes = None\<rparr>"

definition tableStat :: "world \<Rightarrow> string \<Rightarrow> oserr + FileStat" where
  "tableStat w p =
     (case map_of (files w) (resolve w p) of
        Some bytes \<Rightarrow> Inr (fileStat (int (length bytes)))
      | None \<Rightarrow>
          (case map_of (dirs w) (resolve w p) of
             Some _ \<Rightarrow> Inr dirStat
           | None \<Rightarrow> Inl (noEntry p)))"

definition tableRead :: "world \<Rightarrow> string \<Rightarrow> oserr + string" where
  "tableRead w p =
     (case map_of (files w) (resolve w p) of
        Some bytes \<Rightarrow> Inr bytes
      | None \<Rightarrow> Inl (noEntry p))"

definition tableOS :: "world OS" where
  "tableOS =
     \<lparr> UserHomeDir = Inr ''/home/user'',
       Getwd = Inr ''/'',
       EvalSymlinks = (\<lambda>w p.
         case tableStat w p of Inl e \<Rightarrow> Inl e | Inr _ \<Rightarrow> Inr (resolve w p)),
       Stat = tableStat,
       ReadFileBytes = tableRead,
       WriteFileBytes = (\<lambda>w p bytes perm. (None, putFile (resolve w p) bytes w)),
       ReadDir = (\<lambda>w p.
         case map_of (dirs w) (resolve w p) of
           Some es \<Rightarrow> Inr es
         | None \<Rightarrow> Inl (noEntry p)),
       Rename = (\<lambda>w src dst.
         case map_of (files w) src of
           Some bytes \<Rightarrow>
             (None, putFile dst bytes
                      (w\<lparr>files := filter (\<lambda>f. fst f \<noteq> src) (files w),
                         links := filter (\<lambda>l. fst l \<noteq> dst) (links w)\<rparr>))
         | None \<Rightarrow> (Some (noEntry src), w)),
       RemoveAll = (\<lambda>w p. (None, w\<lparr>files := filter (\<lambda>f. fst f \<noteq> p) (files w)\<rparr>)),
       MkdirAll = (\<lambda>w p perm.
         case map_of (dirs w) p of
           Some _ \<Rightarrow> (None, w)
         | None \<Rightarrow> (None, w\<lparr>dirs := (p, []) # dirs w\<rparr>)),
       LstatTree = (\<lambda>w p.
         case map_of (trees w) p of Some t \<Rightarrow> Inr t | None \<Rightarrow> Inl (noEntry p)),
       EntryInfo = tableStat,
       OpenRead = tableRead,
       OpenFileTrunc = (\<lambda>w p perm. (None, putFile p [] w)),
       IoCopy = (\<lambda>w p bytes. (None, putFile p bytes w)),
       CloseFile = (\<lambda>w p. (None, w)) \<rparr>"

text \<open>A file of \<open>n\<close> bytes.\<close>

definition bytesOf :: "nat \<Rightarrow> string" where
  "bytesOf n = replicate n (CHR ''a'')"

subsection \<open>Example filesystems\<close>

definition sandboxValidator :: PathValidator where
  "sandboxValidator = NewPathValidator [''/sandbox'']"

definition sandboxWorld :: world where
  "sandboxWorld =
     \<lparr> files = [(''/sandbox/a.txt'', ''data''), (''/outside/secret.txt'', ''secret'')],
       dirs = [(''/sandbox'', [(''a.txt'', False)]), (''/outside'', [(''secret.txt'', False)])],
       links = [],
       trees = [] \<rparr>"

definition emptySandbox :: world where
  "emptySandbox = \<lparr> files = [], dirs = [(''/sandbox'', [])], links = [], trees = [] \<rparr>"

definition allowedValidator :: PathValidator where
  "allowedValidator = NewPathValidator [''/allowed'']"

definition allowedWorld :: world where
  "allowedWorld =
     \<lparr> files = [(''/allowed/..cache'', ''x''), (''/allowed-evil'', ''y'')],
       dirs = [(''/allowed'', [(''..cache'', False)])],
       links = [],
       trees = [] \<rparr>"

definition sizeWorld :: world where
  "sizeWorld =
     \<lparr> files = [(''/sandbox/exact.bin'', bytesOf 1048576),
                (''/sandbox/over.bin'', bytesOf 1048577)],
       dirs = [(''/sandbox'', [(''exact.bin'', False), (''over.bin'', False)])],
       links = [],
       trees = [] \<rparr>"

definition moveWorld :: world where
  "moveWorld =
     \<lparr> files = [(''/sandbox/src2.txt'', ''z''), (''/sandbox/dst2.txt'', ''existing'')],
       dirs = [(''/sandbox'', [(''dst2.txt'', False), (''src2.txt'', False)])],
       links = [],
       trees = [] \<rparr>"

text \<open>
  \<open>/sandbox/dst.txt\<close> is a symbolic link whose target \<open>/sandbox/missing.txt\<close>
  does not exist.
\<close>

definition danglingWorld :: world where
  "danglingWorld =
     \<lparr> files = [(''/sandbox/src.txt'', ''z'')],
       dirs = [(''/sandbox'', [(''dst.txt'', False), (''src.txt'', False)])],
       links = [(''/sandbox/dst.txt'', ''/sandbox/missing.txt'')],
       trees = [] \<rparr>"

definition nestedValidator :: PathValidator where
  "nestedValidator = NewPathValidator [''/a'', ''/a/b'']"

definition nestedWorld :: world where
  "nestedWorld =
     \<lparr> files = [(''/a/b/..cache'', ''x'')],
       dirs = [(''/a'', [(''b'', True)]), (''/a/b'', [(''..cache'', False)])],
       links = [],
       trees = [] \<rparr>"

definition editWorld :: world where
  "editWorld =
     \<lparr> files = [(''/sandbox/a.txt'', ''hello world'')],
       dirs = [(''/sandbox'', [(''a.txt'', False)])],
       links = [],
       trees = [] \<rparr>"

definition baseValidator :: PathValidator where
  "baseValidator = NewPathValidator [''/base'']"

text \<open>
  \<open>/base/sub/loop\<close> is a symbolic link to \<open>/base\<close>; the listing of
  \<open>/base/sub\<close> reports it as a link, not as a directory, as \<open>os.ReadDir\<close> does.
\<close>

definition loopWorld :: world where
  "loopWorld =
     \<lparr> files = [],
       dirs = [(''/base'', [(''sub'', True)]), (''/base/sub'', [(''loop'', False)])],
       links = [(''/base/sub/loop'', ''/base'')],
       trees = [] \<rparr>"





definition rootValidator :: PathValidator where
  "rootValidator = NewPathValidator [''/root'']"

definition searchWorld :: world where
  "searchWorld =
     \<lparr> files = [(''/root/dir1/foo.txt'', ''x''), (''/root/exclude/foo.txt'', ''x''),
                (''/root/foo.txt'', ''x'')],
       dirs = [(''/root'', [(''dir1'', True), (''exclude'', True), (''foo.txt'', False)]),
               (''/root/dir1'', [(''foo.txt'', False)]),
               (''/root/exclude'', [(''foo.txt'', False)])],
       links = [],
       trees = [(''/root'',
                 DirNode ''root''
                   [DirNode ''dir1'' [FileNode ''foo.txt''] None,
                    DirNode ''exclude'' [FileNode ''foo.txt''] None,
                    FileNode ''foo.txt''] None)] \<rparr>"

section \<open>The specification's notions\<close>

text \<open>
  Containment as the specification words it: a path is inside a directory when it is
  equal to it or continues it after a path separator.
\<close>

definition specContained :: "string \<Rightarrow> string \<Rightarrow> bool" where
  "specContained dir p =
     (p = dir \<or> HasPrefix p (if dir = ''/'' then dir else dir @ ''/''))"

text \<open>
  An edit applies, as the specification words it: its old text occurs verbatim in the
  content, or some contiguous run of content lines equals the lines of the old text
  after trimming white space, line by line.
\<close>

definition specOccursIn :: "string \<Rightarrow> string \<Rightarrow> bool" where
  "specOccursIn old content = (\<exists>pre post. content = pre @ old @ post)"

definition specTrimmedRun :: "string \<Rightarrow> string \<Rightarrow> bool" where
  "specTrimmedRun old content =
     (let oldLines = Split old LF; contentLines = Split content LF
      in \<exists>i. i + length oldLines \<le> length contentLines \<and>
             (\<forall>j < length oldLines.
                TrimSpace (contentLines ! (i + j)) = TrimSpace (oldLines ! j)))"

definition specEditApplies :: "string \<Rightarrow> EditOperation \<Rightarrow> bool" where
  "specEditApplies content edit =
     (specOccursIn (normalizeLineEndings (OldText edit)) content \<or>
      specTrimmedRun (normalizeLineEndings (OldText edit)) content)"

text \<open>
  The search, as the specification words it. An exclude pattern without a wildcard
  stands for \<open>**/<name>/**\<close>; an entry is pruned when its path fails validation or
  its path relative to the root matches an exclude pattern; a name matches when it
  contains the pattern, both in lower case. The result lists, in the order of the walk
  (an entry before the entries below it, the entries of a directory in their order), the
  paths of the entries whose name matches, leaving out every pruned entry and all
  below it.
\<close>

definition specExcludePattern :: "string \<Rightarrow> string" where
  "specExcludePattern p = (if Contains p ''*'' then p else ''**/'' @ p @ ''/**'')"

definition specExcluded :: "Library \<Rightarrow> string \<Rightarrow> string list \<Rightarrow> bool" where
  "specExcluded lib rel excludes =
     list_ex (\<lambda>p. Match lib (specExcludePattern p) rel = Some True) excludes"

definition specPruned ::
  "Library \<Rightarrow> 'w OS \<Rightarrow> 'w \<Rightarrow> PathValidator \<Rightarrow> string \<Rightarrow> string list \<Rightarrow> string \<Rightarrow> bool" where
  "specPruned lib os w pv root excludes path =
     (case ValidatePath os w pv path of
        Inl _ \<Rightarrow> True
      | Inr _ \<Rightarrow>
          (case Rel root path of
             Inr rel \<Rightarrow> specExcluded lib rel excludes
           | Inl _ \<Rightarrow> False))"

definition specNameMatches :: "Library \<Rightarrow> string \<Rightarrow> string \<Rightarrow> bool" where
  "specNameMatches lib pattern name = Contains (ToLower lib name) (ToLower lib pattern)"

fun specSearch ::
  "Library \<Rightarrow> 'w OS \<Rightarrow> 'w \<Rightarrow> PathValidator \<Rightarrow> string \<Rightarrow> string \<Rightarrow> string list
     \<Rightarrow> string \<Rightarrow> DirTree \<Rightarrow> string list" where
  "specSearch lib os w pv root pattern excludes path (FileNode name) =
     (if specPruned lib os w pv root excludes path then []
      else if specNameMatches lib pattern name then [path] else [])"
| "specSearch lib os w pv root pattern excludes path (DirNode name children rderr) =
     (if specPruned lib os w pv root excludes path then []
      else (if specNameMatches lib pattern name then [path] else [])
           @ concat (map (\<lambda>child. specSearch lib os w pv root pattern excludes
                                   (Join path (nodeName child)) child) children))"

section \<open>Cleaned absolute paths\<close>

text \<open>
  A cleaned absolute path is a separator followed by names joined by separators, where a
  name is a non-empty element other than \<open>.\<close> and \<open>..\<close> without a separator.
  \<open>withSlash dir\<close> is the prefix that every path below \<open>dir\<close> has.
\<close>

definition isName :: "string \<Rightarrow> bool" where
  "isName e = (e \<noteq> [] \<and> e \<noteq> ''.'' \<and> e \<noteq> ''..'' \<and> Separator \<notin> set e)"

definition rootedPath :: "string list \<Rightarrow> string" where
  "rootedPath es = Separator # JoinStrings es ''/''"

definition withSlash :: "string \<Rightarrow> string" where
  "withSlash dir = (if dir = ''/'' then dir else dir @ ''/'')"

section \<open>Facts about the example filesystems\<close>

lemma length_bytesOf: "length (bytesOf n) = n"
  by (simp add: bytesOf_def)

lemma sizeWorld_stat_exact:
  "Stat tableOS sizeWorld ''/sandbox/exact.bin''
     = Inr (fileStat 1048576)"
  by (simp add: tableOS_def tableStat_def sizeWorld_def resolve_def length_bytesOf)

lemma sizeWorld_stat_over:
  "Stat tableOS sizeWorld ''/sandbox/over.bin''
     = Inr (fileStat 1048577)"
  by (simp add: tableOS_def tableStat_def sizeWorld_def resolve_def length_bytesOf)

lemma sizeWorld_read_exact:
  "ReadFileBytes tableOS sizeWorld ''/sandbox/exact.bin'' = Inr (bytesOf 1048576)"
  by (simp add: tableOS_def tableRead_def sizeWorld_def resolve_def)

lemma sizeWorld_read_over:
  "ReadFileBytes tableOS sizeWorld ''/sandbox/over.bin'' = Inr (bytesOf 1048577)"
  by (simp add: tableOS_def tableRead_def sizeWorld_def resolve_def)

lemma moveWorld_stat_dst:
  "Stat tableOS moveWorld ''/sandbox/dst2.txt''
     = Inr (fileStat 8)"
  by (simp add: tableOS_def tableStat_def moveWorld_def resolve_def)

section \<open>Reading: the size ceiling\<close>

text \<open>
  C8. \<open>ReadFile\<close> on a file whose size is exactly the ceiling of 1 MiB (1048576 bytes)
  succeeds and returns the whole content that the read delivers; on a file one byte
  larger (and on any larger file) it fails with the size-limit error, and the result
  carries no content.
\<close>

theorem ReadFile_size_ceiling:
  assumes "filePath \<noteq> []"
    and "Stat os w filePath = Inr info"
  shows "maxReadSize = 1048576
    \<and> (Size info = maxReadSize \<and> ReadFileBytes os w filePath = Inr content
         \<longrightarrow> ReadFile os w filePath = Inr content)
    \<and> (Size info = maxReadSize + 1 \<longrightarrow> ReadFile os w filePath = Inl ErrFileTooLarge)
    \<and> (Size info > maxReadSize \<longrightarrow> ReadFile os w filePath = Inl ErrFileTooLarge)"
  using assms by (simp add: ReadFile_def maxReadSize_def)

theorem ReadFile_size_ceiling_witness:
  "ReadFile tableOS sizeWorld ''/sandbox/exact.bin'' = Inr (bytesOf 1048576)
   \<and> length (bytesOf 1048576) = 1048576
   \<and> ReadFile tableOS sizeWorld ''/sandbox/over.bin'' = Inl ErrFileTooLarge"
proof -
  have ne: "''/sandbox/exact.bin'' \<noteq> []" "''/sandbox/over.bin'' \<noteq> []"
    by simp_all
  have exact: "ReadFile tableOS sizeWorld ''/sandbox/exact.bin'' = Inr (bytesOf 1048576)"
    using ReadFile_size_ceiling [OF ne(1) sizeWorld_stat_exact, of "bytesOf 1048576"]
      sizeWorld_read_exact
    by (simp add: fileStat_def)
  have over: "ReadFile tableOS sizeWorld ''/sandbox/over.bin'' = Inl ErrFileTooLarge"
    using ReadFile_size_ceiling [OF ne(2) sizeWorld_stat_over, of "bytesOf 1048577"]
    by (simp add: fileStat_def)
  show ?thesis using exact over by (simp add: length_bytesOf)
qed

section \<open>Moving: an existing destination\<close>

text \<open>
  When \<open>os.Stat\<close> of the destination succeeds, \<open>MoveFile\<close> returns the conflict
  error "destination already exists" and the filesystem it leaves is the one it was
  given: nothing was renamed, copied or removed.
\<close>

lemma MoveFile_destination_exists:
  assumes "sourcePath \<noteq> []" and "destPath \<noteq> []"
    and "Stat os w destPath = Inr info"
  shows "MoveFile os w sourcePath destPath = (Some ErrDestinationExists, w)"
  using assms by (simp add: MoveFile_def)

lemma MoveFile_destination_exists_example:
  "MoveFile tableOS moveWorld ''/sandbox/src2.txt'' ''/sandbox/dst2.txt''
     = (Some ErrDestinationExists, moveWorld)
   \<and> map_of (files moveWorld) ''/sandbox/src2.txt'' = Some ''z''
   \<and> map_of (files moveWorld) ''/sandbox/dst2.txt'' = Some ''existing''"
proof -
  have "MoveFile tableOS moveWorld ''/sandbox/src2.txt'' ''/sandbox/dst2.txt''
          = (Some ErrDestinationExists, moveWorld)"
    by (rule MoveFile_destination_exists [OF _ _ moveWorld_stat_dst]) simp_all
  then show ?thesis by (simp add: moveWorld_def)
qed

text \<open>The handler reports the conflict as an error result, as its test expects.\<close>

lemma handleMoveFile_destination_exists_example:
  "handleMoveFile tableOS moveWorld sandboxValidator ''/sandbox/src2.txt'' ''/sandbox/dst2.txt''
     = (ToolResultError ''Error: destination already exists'', moveWorld)"
  by code_simp

text \<open>
  When \<open>os.Stat\<close> of the destination fails with "no such file or directory" and
  the rename succeeds, \<open>MoveFile\<close> returns no error and leaves the filesystem the
  rename leaves.
\<close>

lemma MoveFile_renames_when_stat_fails:
  assumes "sourcePath \<noteq> []" and "destPath \<noteq> []"
    and "Stat os w destPath = Inl e" and "IsNotExist e"
    and "Rename os w sourcePath destPath = (None, w')"
  shows "MoveFile os w sourcePath destPath = (None, w')"
  using assms by (simp add: MoveFile_def)

text \<open>
  C7. The existence check is \<open>os.Stat\<close>, which follows symbolic links. A destination
  that is a symbolic link to a path that does not exist is there (the link is an entry
  of its directory), and \<open>os.Stat\<close> of it fails with "no such file or directory":
  \<open>MoveFile\<close> takes the destination for absent, renames the source over it and
  returns no error. In \<open>danglingWorld\<close> the destination \<open>/sandbox/dst.txt\<close> is
  such a link; it passes validation; after the call the link is gone, the destination
  holds the bytes of the source, the source is gone, and the handler reports success.
\<close>

theorem MoveFile_replaces_dangling_link:
  "map_of (links danglingWorld) ''/sandbox/dst.txt'' = Some ''/sandbox/missing.txt''
   \<and> map_of (files danglingWorld) ''/sandbox/src.txt'' = Some ''z''
   \<and> Stat tableOS danglingWorld ''/sandbox/dst.txt'' = Inl (noEntry ''/sandbox/dst.txt'')
   \<and> IsNotExist (noEntry ''/sandbox/dst.txt'')
   \<and> ValidatePath tableOS danglingWorld sandboxValidator ''/sandbox/src.txt''
       = Inr ''/sandbox/src.txt''
   \<and> ValidatePath tableOS danglingWorld sandboxValidator ''/sandbox/dst.txt''
       = Inr ''/sandbox/dst.txt''
   \<and> fst (MoveFile tableOS danglingWorld ''/sandbox/src.txt'' ''/sandbox/dst.txt'') = None
   \<and> map_of (links (snd (MoveFile tableOS danglingWorld ''/sandbox/src.txt''
                            ''/sandbox/dst.txt''))) ''/sandbox/dst.txt'' = None
   \<and> map_of (files (snd (MoveFile tableOS danglingWorld ''/sandbox/src.txt''
                            ''/sandbox/dst.txt''))) ''/sandbox/dst.txt'' = Some ''z''
   \<and> map_of (files (snd (MoveFile tableOS danglingWorld ''/sandbox/src.txt''
                            ''/sandbox/dst.txt''))) ''/sandbox/src.txt'' = None
   \<and> fst (handleMoveFile tableOS danglingWorld sandboxValidator ''/sandbox/src.txt''
            ''/sandbox/dst.txt'')
       = ToolResultText ''Successfully moved /sandbox/src.txt to /sandbox/dst.txt''"
  by code_simp

section \<open>Writing: no size ceiling\<close>

lemma WriteFile_writes:
  "filePath \<noteq> [] \<Longrightarrow>
   WriteFile os w filePath content
     = (map_option ErrWrite (fst (WriteFileBytes os w filePath content perm0644)),
        snd (WriteFileBytes os w filePath content perm0644))"
  by (simp add: WriteFile_def split: prod.splits option.splits)

text \<open>
  C2. \<open>WriteFile\<close> compares the content with no ceiling: whatever number \<open>n\<close> a
  ceiling might be, content of \<open>n + 1\<close> bytes is written and the call succeeds. The
  test \<open>TestWriteFileExceedsLimit\<close> expects an error and no file.
\<close>

theorem WriteFile_no_size_check:
  "WriteFile tableOS emptySandbox ''/sandbox/too_big.txt'' (bytesOf (n + 1))
     = (None, putFile ''/sandbox/too_big.txt'' (bytesOf (n + 1)) emptySandbox)
   \<and> map_of (files emptySandbox) ''/sandbox/too_big.txt'' = None
   \<and> map_of (files (putFile ''/sandbox/too_big.txt'' (bytesOf (n + 1)) emptySandbox))
        ''/sandbox/too_big.txt'' = Some (bytesOf (n + 1))"
  by (simp add: WriteFile_def tableOS_def resolve_def emptySandbox_def putFile_def)



section \<open>Handlers: validation before the engine is called\<close>

text \<open>
  C1, the claim as stated: the engine's \<open>ReadFile\<close> and \<open>WriteFile\<close> call no
  validator. With \<open>/sandbox\<close> as the only allowed directory they read and
  overwrite \<open>/outside/secret.txt\<close>, which \<open>ValidatePath\<close> refuses.
\<close>

theorem engine_does_not_validate:
  "ValidatePath tableOS sandboxWorld sandboxValidator ''/outside/secret.txt''
     = Inl (ErrOutsideAllowed ''/outside/secret.txt'')
   \<and> ReadFile tableOS sandboxWorld ''/outside/secret.txt'' = Inr ''secret''
   \<and> fst (WriteFile tableOS sandboxWorld ''/outside/secret.txt'' ''x'') = None
   \<and> map_of (files (snd (WriteFile tableOS sandboxWorld ''/outside/secret.txt'' ''x'')))
        ''/outside/secret.txt'' = Some ''x''"
  by code_simp

text \<open>
  C1 (as amended). Validation is the handlers' work. With \<open>bad\<close> a path that fails
  validation and \<open>good\<close> one that passes it with the validated path \<open>valid\<close>:

  \<^item> each of the handlers for reading, listing, the tree, file information, searching,
    writing, editing, creating a directory and moving returns the validation error for
    \<open>bad\<close> and leaves the filesystem as it was;

  \<^item> each of them, given \<open>good\<close>, returns what the engine's method returns when it is
    run on \<open>valid\<close>, and leaves the filesystem that method leaves;

  \<^item> inside the engine, \<open>DirectoryTree\<close> refuses a root that fails validation and
    skips a subdirectory that does, and the callback of \<open>SearchFiles\<close> skips a visited
    path that does (with all below it when it is a directory);

  \<^item> the engine's \<open>ReadFile\<close>, \<open>WriteFile\<close>, \<open>EditFile\<close>,
    \<open>CreateDirectory\<close>, \<open>ListDirectory\<close>, \<open>GetFileInfo\<close> and \<open>MoveFile\<close>
    do not validate: given \<open>bad\<close> they go to the filesystem with it and return what the
    filesystem gives.
\<close>

theorem handlers_validate_first:
  assumes "bad \<noteq> []" and "ValidatePath os w pv bad = Inl err"
    and "good \<noteq> []" and "ValidatePath os w pv good = Inr valid"
  shows "handleReadFile os w pv bad = ToolResultError (''Error: '' @ errorString err)
   \<and> handleListDirectory os w pv bad = ToolResultError (''Error: '' @ errorString err)
   \<and> handleDirectoryTree os marshalTree w pv bad
       = ToolResultError (''Error: '' @ errorString err)
   \<and> handleGetFileInfo os marshalInfo w pv bad
       = ToolResultError (''Error: '' @ errorString err)
   \<and> (pattern \<noteq> [] \<longrightarrow>
        handleSearchFiles lib os w pv bad pattern excludes
          = ToolResultError (''Error: '' @ errorString err))
   \<and> (content \<noteq> [] \<longrightarrow>
        handleWriteFile os w pv bad content
          = (ToolResultError (''Error: '' @ errorString err), w))
   \<and> (take 100 edits \<noteq> [] \<longrightarrow>
        handleEditFile os patchText w pv bad edits dryRun
          = (ToolResultError (''Error: '' @ errorString err), w))
   \<and> handleCreateDirectory os w pv bad
       = (ToolResultError (''Error: '' @ errorString err), w)
   \<and> (other \<noteq> [] \<longrightarrow>
        handleMoveFile os w pv bad other
          = (ToolResultError (''Error: '' @ errorString err), w))
   \<and> handleMoveFile os w pv good bad
       = (ToolResultError (''Error: '' @ errorString err), w)
   \<and> handleReadFile os w pv good
       = (case ReadFile os w valid of
            Inl e \<Rightarrow> ToolResultError (''Error: '' @ errorString e)
          | Inr text \<Rightarrow> ToolResultText text)
   \<and> handleListDirectory os w pv good
       = (case ListDirectory os w valid of
            Inl e \<Rightarrow> ToolResultError (''Error: '' @ errorString e)
          | Inr listing \<Rightarrow> ToolResultText listing)
   \<and> handleDirectoryTree os marshalTree w pv good
       = (case DirectoryTree os w pv valid of
            Inl e \<Rightarrow> ToolResultError (''Error: '' @ errorString e)
          | Inr tree \<Rightarrow> ToolResultText (marshalTree tree))
   \<and> handleGetFileInfo os marshalInfo w pv good
       = (case GetFileInfo os w valid of
            Inl e \<Rightarrow> ToolResultError (''Error: '' @ errorString e)
          | Inr fi \<Rightarrow>
              (case marshalInfo fi of
                 None \<Rightarrow> ToolResultError ''Failed to format file info''
               | Some infoJSON \<Rightarrow> ToolResultText infoJSON))
   \<and> (pattern \<noteq> [] \<longrightarrow>
        handleSearchFiles lib os w pv good pattern excludes
          = (case SearchFiles lib os w pv valid pattern (take 100 excludes) of
               Inl e \<Rightarrow> ToolResultError (''Error: '' @ errorString e)
             | Inr results \<Rightarrow>
                 if results = [] then ToolResultText ''No matches found''
                 else ToolResultText (JoinStrings results [LF])))
   \<and> (content \<noteq> [] \<longrightarrow>
        handleWriteFile os w pv good content
          = (case WriteFile os w valid content of
               (Some e, w') \<Rightarrow> (ToolResultError (''Error: '' @ errorString e), w')
             | (None, w') \<Rightarrow> (ToolResultText (''Successfully wrote to '' @ good), w')))
   \<and> (take 100 edits \<noteq> [] \<longrightarrow>
        handleEditFile os patchText w pv good edits dryRun
          = (case EditFile os patchText w valid (take 100 edits) dryRun of
               (Inl e, w') \<Rightarrow> (ToolResultError (''Error: '' @ errorString e), w')
             | (Inr diff, w') \<Rightarrow> (ToolResultText diff, w')))
   \<and> handleCreateDirectory os w pv good
       = (case CreateDirectory os w valid of
            (Some e, w') \<Rightarrow> (ToolResultError (''Error: '' @ errorString e), w')
          | (None, w') \<Rightarrow>
              (ToolResultText (''Successfully created directory '' @ good), w'))
   \<and> (good' \<noteq> [] \<and> ValidatePath os w pv good' = Inr valid' \<longrightarrow>
        handleMoveFile os w pv good good'
          = (case MoveFile os w valid valid' of
               (Some e, w') \<Rightarrow> (ToolResultError (''Error: '' @ errorString e), w')
             | (None, w') \<Rightarrow>
                 (ToolResultText (''Successfully moved '' @ good @ '' to '' @ good'), w')))
   \<and> DirectoryTree os w pv bad = Inl err
   \<and> (snd entry \<and> ValidatePath os w pv (Join dirPath (fst entry)) = Inl err' \<longrightarrow>
        buildEntries os w pv dirPath (entry # entries) visited depth
          = buildEntries os w pv dirPath entries visited depth)
   \<and> searchFn lib os w pv rootPath lowerPattern excludes bad (Entry name isDir) results
       = (if isDir then WalkSkipDir else WalkNil, results)
   \<and> (Stat os w bad = Inr info \<and> Size info \<le> maxReadSize
        \<and> ReadFileBytes os w bad = Inr data \<longrightarrow>
        ReadFile os w bad = Inr data)
   \<and> WriteFile os w bad content
       = (map_option ErrWrite (fst (WriteFileBytes os w bad content perm0644)),
          snd (WriteFileBytes os w bad content perm0644))
   \<and> (edits \<noteq> [] \<and> ReadFile os w bad = Inr original
        \<and> applyEdits original edits = Inr modified \<longrightarrow>
        EditFile os patchText w bad edits False
          = (case WriteFile os w bad modified of
               (Some e, w') \<Rightarrow> (Inl e, w')
             | (None, w') \<Rightarrow>
                 (Inr (createUnifiedDiff patchText original modified bad), w')))
   \<and> CreateDirectory os w bad
       = (map_option ErrCreateDir (fst (MkdirAll os w bad perm0755)),
          snd (MkdirAll os w bad perm0755))
   \<and> ListDirectory os w bad
       = (case ReadDir os w bad of
            Inl e \<Rightarrow> Inl (ErrReadDir e)
          | Inr dirEntries \<Rightarrow> Inr (JoinStrings (map listLine dirEntries) [LF]))
   \<and> (Stat os w bad = Inr info \<longrightarrow>
        (\<exists>fi. GetFileInfo os w bad = Inr fi \<and> InfoSize fi = Size info
              \<and> IsDirectory fi = IsDir info))
   \<and> (other \<noteq> [] \<and> Stat os w bad = Inl e \<and> IsNotExist e
        \<and> fst (Rename os w other bad) = None \<longrightarrow>
        MoveFile os w other bad = (None, snd (Rename os w other bad)))
   \<and> (other \<noteq> [] \<and> Stat os w other = Inl e \<and> IsNotExist e
        \<and> fst (Rename os w bad other) = None \<longrightarrow>
        MoveFile os w bad other = (None, snd (Rename os w bad other)))"
proof (intro conjI impI)
  show "handleReadFile os w pv bad = ToolResultError (''Error: '' @ errorString err)"
    using assms(1,2) by (simp add: handleReadFile_def)
  show "handleListDirectory os w pv bad = ToolResultError (''Error: '' @ errorString err)"
    using assms(1,2) by (simp add: handleListDirectory_def)
  show "handleDirectoryTree os marshalTree w pv bad
       = ToolResultError (''Error: '' @ errorString err)"
    using assms(1,2) by (simp add: handleDirectoryTree_def)
  show "handleGetFileInfo os marshalInfo w pv bad
       = ToolResultError (''Error: '' @ errorString err)"
    using assms(1,2) by (simp add: handleGetFileInfo_def)
  show "handleSearchFiles lib os w pv bad pattern excludes
          = ToolResultError (''Error: '' @ errorString err)" if "pattern \<noteq> []"
    using assms(1,2) that by (simp add: handleSearchFiles_def)
  show "handleWriteFile os w pv bad content
          = (ToolResultError (''Error: '' @ errorString err), w)" if "content \<noteq> []"
    using assms(1,2) that by (simp add: handleWriteFile_def)
  show "handleEditFile os patchText w pv bad edits dryRun
          = (ToolResultError (''Error: '' @ errorString err), w)" if "take 100 edits \<noteq> []"
    using assms(1,2) that by (simp add: handleEditFile_def Let_def)
  show "handleCreateDirectory os w pv bad
       = (ToolResultError (''Error: '' @ errorString err), w)"
    using assms(1,2) by (simp add: handleCreateDirectory_def)
  show "handleMoveFile os w pv bad other
          = (ToolResultError (''Error: '' @ errorString err), w)" if "other \<noteq> []"
    using assms(1,2) that by (simp add: handleMoveFile_def)
  show "handleMoveFile os w pv good bad
       = (ToolResultError (''Error: '' @ errorString err), w)"
    using assms by (simp add: handleMoveFile_def)
  show "handleReadFile os w pv good
       = (case ReadFile os w valid of
            Inl e \<Rightarrow> ToolResultError (''Error: '' @ errorString e)
          | Inr text \<Rightarrow> ToolResultText text)"
    using assms(3,4) by (simp add: handleReadFile_def)
  show "handleListDirectory os w pv good
       = (case ListDirectory os w valid of
            Inl e \<Rightarrow> ToolResultError (''Error: '' @ errorString e)
          | Inr listing \<Rightarrow> ToolResultText listing)"
    using assms(3,4) by (simp add: handleListDirectory_def)
  show "handleDirectoryTree os marshalTree w pv good
       = (case DirectoryTree os w pv valid of
            Inl e \<Rightarrow> ToolResultError (''Error: '' @ errorString e)
          | Inr tree \<Rightarrow> ToolResultText (marshalTree tree))"
    using assms(3,4) by (simp add: handleDirectoryTree_def)
  show "handleGetFileInfo os marshalInfo w pv good
       = (case GetFileInfo os w valid of
            Inl e \<Rightarrow> ToolResultError (''Error: '' @ errorString e)
          | Inr fi \<Rightarrow>
              (case marshalInfo fi of
                 None \<Rightarrow> ToolResultError ''Failed to format file info''
               | Some infoJSON \<Rightarrow> ToolResultText infoJSON))"
    using assms(3,4) by (simp add: handleGetFileInfo_def)
  show "handleSearchFiles lib os w pv good pattern excludes
          = (case SearchFiles lib os w pv valid pattern (take 100 excludes) of
               Inl e \<Rightarrow> ToolResultError (''Error: '' @ errorString e)
             | Inr results \<Rightarrow>
                 if results = [] then ToolResultText ''No matches found''
                 else ToolResultText (JoinStrings results [LF]))" if "pattern \<noteq> []"
    using assms(3,4) that by (simp add: handleSearchFiles_def Let_def)
  show "handleWriteFile os w pv good content
          = (case WriteFile os w valid content of
               (Some e, w') \<Rightarrow> (ToolResultError (''Error: '' @ errorString e), w')
             | (None, w') \<Rightarrow> (ToolResultText (''Successfully wrote to '' @ good), w'))"
    if "content \<noteq> []"
    using assms(3,4) that by (simp add: handleWriteFile_def)
  show "handleEditFile os patchText w pv good edits dryRun
          = (case EditFile os patchText w valid (take 100 edits) dryRun of
               (Inl e, w') \<Rightarrow> (ToolResultError (''Error: '' @ errorString e), w')
             | (Inr diff, w') \<Rightarrow> (ToolResultText diff, w'))"
    if "take 100 edits \<noteq> []"
    using assms(3,4) that by (simp add: handleEditFile_def Let_def)
  show "handleCreateDirectory os w pv good
       = (case CreateDirectory os w valid of
            (Some e, w') \<Rightarrow> (ToolResultError (''Error: '' @ errorString e), w')
          | (None, w') \<Rightarrow>
              (ToolResultText (''Successfully created directory '' @ good), w'))"
    using assms(3,4) by (simp add: handleCreateDirectory_def)
  show "handleMoveFile os w pv good good'
          = (case MoveFile os w valid valid' of
               (Some e, w') \<Rightarrow> (ToolResultError (''Error: '' @ errorString e), w')
             | (None, w') \<Rightarrow>
                 (ToolResultText (''Successfully moved '' @ good @ '' to '' @ good'), w'))"
    if "good' \<noteq> [] \<and> ValidatePath os w pv good' = Inr valid'"
    using assms(3,4) that by (simp add: handleMoveFile_def)
  show "DirectoryTree os w pv bad = Inl err"
    using assms(1,2) by (simp add: DirectoryTree_def)
  show "buildEntries os w pv dirPath (entry # entries) visited depth
          = buildEntries os w pv dirPath entries visited depth"
    if "snd entry \<and> ValidatePath os w pv (Join dirPath (fst entry)) = Inl err'"
    using that by (simp add: buildEntries.simps)
  show "searchFn lib os w pv rootPath lowerPattern excludes bad (Entry name isDir) results
       = (if isDir then WalkSkipDir else WalkNil, results)"
    using assms(2) by (simp add: searchFn_def)
  show "ReadFile os w bad = Inr data"
    if "Stat os w bad = Inr info \<and> Size info \<le> maxReadSize
        \<and> ReadFileBytes os w bad = Inr data"
    using assms(1) that by (simp add: ReadFile_def)
  show "WriteFile os w bad content
       = (map_option ErrWrite (fst (WriteFileBytes os w bad content perm0644)),
          snd (WriteFileBytes os w bad content perm0644))"
    using assms(1) by (simp add: WriteFile_def split: prod.splits option.splits)
  show "EditFile os patchText w bad edits False
          = (case WriteFile os w bad modified of
               (Some e, w') \<Rightarrow> (Inl e, w')
             | (None, w') \<Rightarrow>
                 (Inr (createUnifiedDiff patchText original modified bad), w'))"
    if "edits \<noteq> [] \<and> ReadFile os w bad = Inr original
        \<and> applyEdits original edits = Inr modified"
    using assms(1) that by (simp add: EditFile_def Let_def)
  show "CreateDirectory os w bad
       = (map_option ErrCreateDir (fst (MkdirAll os w bad perm0755)),
          snd (MkdirAll os w bad perm0755))"
    using assms(1) by (simp add: CreateDirectory_def split: prod.splits option.splits)
  show "ListDirectory os w bad
       = (case ReadDir os w bad of
            Inl e \<Rightarrow> Inl (ErrReadDir e)
          | Inr dirEntries \<Rightarrow> Inr (JoinStrings (map listLine dirEntries) [LF]))"
    using assms(1) by (simp add: ListDirectory_def)
  show "\<exists>fi. GetFileInfo os w bad = Inr fi \<and> InfoSize fi = Size info
              \<and> IsDirectory fi = IsDir info"
    if "Stat os w bad = Inr info"
    using assms(1) that by (simp add: GetFileInfo_def)
  show "MoveFile os w other bad = (None, snd (Rename os w other bad))"
    if "other \<noteq> [] \<and> Stat os w bad = Inl e \<and> IsNotExist e
        \<and> fst (Rename os w other bad) = None"
    using assms(1) that by (cases "Rename os w other bad") (simp add: MoveFile_def)
  show "MoveFile os w bad other = (None, snd (Rename os w bad other))"
    if "other \<noteq> [] \<and> Stat os w other = Inl e \<and> IsNotExist e
        \<and> fst (Rename os w bad other) = None"
    using assms(1) that by (cases "Rename os w bad other") (simp add: MoveFile_def)
qed

theorem handlers_validate_first_witness:
  "handleReadFile tableOS sandboxWorld sandboxValidator ''/outside/secret.txt''
     = ToolResultError
         ''Error: access denied - path outside allowed directories: /outside/secret.txt''
   \<and> handleWriteFile tableOS sandboxWorld sandboxValidator ''/outside/secret.txt'' ''x''
     = (ToolResultError
          ''Error: access denied - path outside allowed directories: /outside/secret.txt'',
        sandboxWorld)
   \<and> handleMoveFile tableOS sandboxWorld sandboxValidator ''/sandbox/a.txt''
        ''/outside/secret.txt''
     = (ToolResultError
          ''Error: access denied - path outside allowed directories: /outside/secret.txt'',
        sandboxWorld)
   \<and> handleReadFile tableOS sandboxWorld sandboxValidator ''/sandbox/a.txt''
     = ToolResultText ''data''
   \<and> handleListDirectory tableOS sandboxWorld sandboxValidator ''/sandbox/a.txt''
     = ToolResultError
         ''Error: failed to read directory: /sandbox/a.txt: no such file or directory''
   \<and> handleWriteFile tableOS sandboxWorld sandboxValidator ''/sandbox/a.txt'' ''x''
     = (ToolResultText ''Successfully wrote to /sandbox/a.txt'',
        putFile ''/sandbox/a.txt'' ''x'' sandboxWorld)
   \<and> handleMoveFile tableOS sandboxWorld sandboxValidator ''/sandbox/a.txt''
        ''/sandbox/b.txt''
     = (ToolResultText ''Successfully moved /sandbox/a.txt to /sandbox/b.txt'',
        snd (Rename tableOS sandboxWorld ''/sandbox/a.txt'' ''/sandbox/b.txt''))
   \<and> DirectoryTree tableOS sandboxWorld sandboxValidator ''/outside/secret.txt''
     = Inl (ErrOutsideAllowed ''/outside/secret.txt'')
   \<and> ReadFile tableOS sandboxWorld ''/outside/secret.txt'' = Inr ''secret''
   \<and> WriteFile tableOS sandboxWorld ''/outside/secret.txt'' ''x''
     = (None, putFile ''/outside/secret.txt'' ''x'' sandboxWorld)
   \<and> MoveFile tableOS sandboxWorld ''/outside/secret.txt'' ''/sandbox/b.txt''
     = (None, snd (Rename tableOS sandboxWorld ''/outside/secret.txt'' ''/sandbox/b.txt''))"
proof -
  have b1: "''/outside/secret.txt'' \<noteq> []" and g1: "''/sandbox/a.txt'' \<noteq> []"
    and g1': "''/sandbox/b.txt'' \<noteq> []" and c: "''x'' \<noteq> []"
    by simp_all
  have b2: "ValidatePath tableOS sandboxWorld sandboxValidator ''/outside/secret.txt''
              = Inl (ErrOutsideAllowed ''/outside/secret.txt'')"
    by code_simp
  have g2: "ValidatePath tableOS sandboxWorld sandboxValidator ''/sandbox/a.txt''
              = Inr ''/sandbox/a.txt''"
    by code_simp
  have g2': "ValidatePath tableOS sandboxWorld sandboxValidator ''/sandbox/b.txt''
              = Inr ''/sandbox/b.txt''"
    by code_simp
  have rd: "ReadFile tableOS sandboxWorld ''/sandbox/a.txt'' = Inr ''data''"
    by code_simp
  have ls: "ListDirectory tableOS sandboxWorld ''/sandbox/a.txt''
              = Inl (ErrReadDir (noEntry ''/sandbox/a.txt''))"
    by code_simp
  have wr: "WriteFile tableOS sandboxWorld ''/sandbox/a.txt'' ''x''
              = (None, putFile ''/sandbox/a.txt'' ''x'' sandboxWorld)"
    by (simp add: WriteFile_def tableOS_def resolve_def sandboxWorld_def)
  have mv: "MoveFile tableOS sandboxWorld ''/sandbox/a.txt'' ''/sandbox/b.txt''
              = (None, snd (Rename tableOS sandboxWorld ''/sandbox/a.txt'' ''/sandbox/b.txt''))"
    by code_simp
  have st: "Stat tableOS sandboxWorld ''/outside/secret.txt'' = Inr (fileStat 6)"
    by (simp add: tableOS_def tableStat_def resolve_def sandboxWorld_def)
  have sz: "Size (fileStat 6) \<le> maxReadSize"
    by (simp add: fileStat_def maxReadSize_def)
  have rb: "ReadFileBytes tableOS sandboxWorld ''/outside/secret.txt'' = Inr ''secret''"
    by (simp add: tableOS_def tableRead_def resolve_def sandboxWorld_def)
  have wb: "WriteFileBytes tableOS sandboxWorld ''/outside/secret.txt'' ''x'' perm0644
              = (None, putFile ''/outside/secret.txt'' ''x'' sandboxWorld)"
    by (simp add: tableOS_def resolve_def sandboxWorld_def)
  have sb: "Stat tableOS sandboxWorld ''/sandbox/b.txt'' = Inl (noEntry ''/sandbox/b.txt'')"
    by (simp add: tableOS_def tableStat_def resolve_def sandboxWorld_def)
  have ne: "IsNotExist (noEntry ''/sandbox/b.txt'')"
    by (simp add: IsNotExist_def noEntry_def)
  have rn: "fst (Rename tableOS sandboxWorld ''/outside/secret.txt'' ''/sandbox/b.txt'') = None"
    by (simp add: tableOS_def sandboxWorld_def)
  note inst = handlers_validate_first [OF b1 b2 g1 g2, where content = "''x''"
      and info = "fileStat 6" and data = "''secret''" and good' = "''/sandbox/b.txt''"
      and valid' = "''/sandbox/b.txt''" and other = "''/sandbox/b.txt''"
      and e = "noEntry ''/sandbox/b.txt''" and marshalTree = "\<lambda>tree. []"
      and marshalInfo = "\<lambda>fi. None" and pattern = "''foo''" and lib = exampleLibrary
      and excludes = "[]" and edits = "[]" and patchText = "\<lambda>a b. b" and dryRun = False
      and entry = "(''a.txt'', False)" and dirPath = "''/sandbox''" and err' = ErrPathEmpty
      and entries = "[]" and visited = "{}" and depth = 0 and rootPath = "''/sandbox''"
      and lowerPattern = "''foo''" and name = "''secret.txt''" and isDir = False
      and results = "[]" and original = "[]" and modified = "[]"]
  have msg: "''Error: '' @ errorString (ErrOutsideAllowed ''/outside/secret.txt'')
      = ''Error: access denied - path outside allowed directories: /outside/secret.txt''"
    by simp
  show ?thesis
    using inst c g1' g2' rd ls wr mv st sz rb wb sb ne rn unfolding msg
    by (simp add: noEntry_def)
qed

text \<open>
  The handler for reading several files is different: it keeps a path whose validation
  failed and hands it to \<open>ReadMultipleFiles\<close>, which reads it. The file
  \<open>/outside/secret.txt\<close> is refused by \<open>ValidatePath\<close> and by
  \<open>handleReadFile\<close>, and its content is returned by \<open>handleReadMultipleFiles\<close>.
\<close>

lemma handleReadMultipleFiles_reads_unvalidated:
  "ValidatePath tableOS sandboxWorld sandboxValidator ''/outside/secret.txt''
     = Inl (ErrOutsideAllowed ''/outside/secret.txt'')
   \<and> handleReadFile tableOS sandboxWorld sandboxValidator ''/outside/secret.txt''
     = ToolResultError
         ''Error: access denied - path outside allowed directories: /outside/secret.txt''
   \<and> handleReadMultipleFiles tableOS sandboxWorld sandboxValidator [''/outside/secret.txt'']
     = ToolResultText (''/outside/secret.txt:'' @ [LF] @ ''secret'' @ [LF])"
  by code_simp

section \<open>Containment: names that begin with two dots\<close>

text \<open>
  C3. With \<open>/allowed\<close> as the only allowed directory, \<open>/allowed/..cache\<close> is a
  descendant of it bounded by a path separator, and the containment check refuses it:
  the relative path \<open>..cache\<close> starts with the two bytes \<open>..\<close>. The sibling
  \<open>/allowed-evil\<close> is refused, as the claim says.
\<close>

theorem containment_refuses_descendant:
  "specContained ''/allowed'' ''/allowed/..cache''
   \<and> Clean ''/allowed/..cache'' = ''/allowed/..cache''
   \<and> Rel ''/allowed'' ''/allowed/..cache'' = Inr ''..cache''
   \<and> \<not> isPathUnderDirectory ''/allowed/..cache'' ''/allowed''
   \<and> \<not> isPathAllowed allowedValidator ''/allowed/..cache''
   \<and> ValidatePath tableOS allowedWorld allowedValidator ''/allowed/..cache''
       = Inl (ErrOutsideAllowed ''/allowed/..cache'')
   \<and> \<not> specContained ''/allowed'' ''/allowed-evil''
   \<and> \<not> isPathAllowed allowedValidator ''/allowed-evil''"
  by code_simp



section \<open>Searching: pruning, matching and order\<close>

lemma shouldExclude_specExcluded:
  "shouldExclude lib rel excludes = specExcluded lib rel excludes"
  by (induction excludes) (simp_all add: specExcluded_def specExcludePattern_def Let_def)

lemma searchFn_Entry:
  "searchFn lib os w pv rootPath (ToLower lib pattern) excludes path (Entry name isDir) results
     = (if specPruned lib os w pv rootPath excludes path
        then (if isDir then WalkSkipDir else WalkNil, results)
        else (WalkNil, results @ (if specNameMatches lib pattern name then [path] else [])))"
  by (simp add: searchFn_def specPruned_def specNameMatches_def shouldExclude_specExcluded
        split: sum.splits)

lemma searchFn_Failed:
  "searchFn lib os w pv rootPath lowerPattern excludes path (Failed err) results
     = (WalkNil, results)"
  by (simp add: searchFn_def)

lemma walkEntries_collects:
  assumes "\<And>child path results. child \<in> set nodes \<Longrightarrow>
             walkDir path child fn results = (WalkNil, results @ found path child)"
  shows "walkEntries path nodes fn results
           = (WalkNil,
              results @ concat (map (\<lambda>child. found (Join path (nodeName child)) child) nodes))"
  using assms
proof (induction nodes arbitrary: results)
  case Nil
  then show ?case by simp
next
  case (Cons node nodes)
  have hd: "walkDir (Join path (nodeName node)) node fn results
              = (WalkNil, results @ found (Join path (nodeName node)) node)"
    by (rule Cons.prems) simp
  have tl: "walkEntries path nodes fn (results @ found (Join path (nodeName node)) node)
              = (WalkNil,
                 (results @ found (Join path (nodeName node)) node)
                   @ concat (map (\<lambda>child. found (Join path (nodeName child)) child) nodes))"
    by (rule Cons.IH) (simp add: Cons.prems)
  show ?case by (simp add: hd tl)
qed

lemma walkDir_searchFn:
  "walkDir path node (searchFn lib os w pv rootPath (ToLower lib pattern) excludes) results
     = (WalkNil, results @ specSearch lib os w pv rootPath pattern excludes path node)"
proof (induction node arbitrary: path results)
  case (FileNode name)
  show ?case by (simp add: searchFn_Entry)
next
  case (DirNode name children rderr)
  show ?case
  proof (cases "specPruned lib os w pv rootPath excludes path")
    case True
    then show ?thesis by (simp add: searchFn_Entry)
  next
    case False
    have below: "walkEntries path children
                   (searchFn lib os w pv rootPath (ToLower lib pattern) excludes) rs
                 = (WalkNil,
                    rs @ concat (map (\<lambda>child. specSearch lib os w pv rootPath pattern excludes
                                               (Join path (nodeName child)) child) children))"
      for rs
      by (rule walkEntries_collects) (rule DirNode.IH)
    show ?thesis
      using False by (cases rderr) (simp_all add: searchFn_Entry searchFn_Failed below)
  qed
qed

text \<open>
  C9. \<open>SearchFiles\<close> returns what the specification describes, for every filesystem
  and whatever \<open>strings.ToLower\<close> and \<open>doublestar.Match\<close> compute: the paths, in the
  order of the walk, of the entries whose name contains the pattern when both are put in
  lower case, leaving out every entry whose path fails validation or whose path relative
  to the root matches an exclude pattern, and all that is below such an entry. An
  exclude pattern is matched as it is when it has a \<open>*\<close>, and as
  \<open>**/<name>/**\<close> when it has none. A root that cannot be examined gives no paths.
\<close>

theorem SearchFiles_prunes_and_matches:
  assumes "rootPath \<noteq> []" and "pattern \<noteq> []"
  shows "SearchFiles lib os w pv rootPath pattern excludes
           = Inr (case LstatTree os w rootPath of
                    Inl _ \<Rightarrow> []
                  | Inr tree \<Rightarrow> specSearch lib os w pv rootPath pattern excludes rootPath tree)
       \<and> shouldExclude lib rel excludes = specExcluded lib rel excludes
       \<and> (\<not> Contains name ''*'' \<longrightarrow>
            shouldExclude lib rel [name]
              = (Match lib (''**/'' @ name @ ''/**'') rel = Some True))"
proof (intro conjI impI)
  show "SearchFiles lib os w pv rootPath pattern excludes
           = Inr (case LstatTree os w rootPath of
                    Inl _ \<Rightarrow> []
                  | Inr tree \<Rightarrow> specSearch lib os w pv rootPath pattern excludes rootPath tree)"
    using assms
    by (simp add: SearchFiles_def WalkDir_def Let_def walkDir_searchFn searchFn_Failed
          split: sum.splits)
  show "shouldExclude lib rel excludes = specExcluded lib rel excludes"
    by (rule shouldExclude_specExcluded)
  show "shouldExclude lib rel [name] = (Match lib (''**/'' @ name @ ''/**'') rel = Some True)"
    if "\<not> Contains name ''*''"
    using that by simp
qed

text \<open>
  The example of the specification: over \<open>/root/foo.txt\<close>, \<open>/root/dir1/foo.txt\<close>
  and \<open>/root/exclude/foo.txt\<close>, the search for \<open>foo\<close> excluding \<open>exclude\<close>
  gives the first two paths, \<open>dir1\<close> before \<open>foo.txt\<close> as the walk meets them.
\<close>

theorem SearchFiles_prunes_and_matches_witness:
  "SearchFiles exampleLibrary tableOS searchWorld rootValidator ''/root'' ''foo'' [''exclude'']
     = Inr [''/root/dir1/foo.txt'', ''/root/foo.txt'']
   \<and> shouldExclude exampleLibrary ''exclude/foo.txt'' [''exclude'']
   \<and> shouldExclude exampleLibrary ''exclude'' [''exclude'']
   \<and> \<not> shouldExclude exampleLibrary ''dir1/foo.txt'' [''exclude'']"
proof -
  have r: "''/root'' \<noteq> []" and p: "''foo'' \<noteq> []"
    by simp_all
  have n: "\<not> Contains ''exclude'' ''*''"
    by code_simp
  have tree: "LstatTree tableOS searchWorld ''/root''
                = Inr (DirNode ''root''
                        [DirNode ''dir1'' [FileNode ''foo.txt''] None,
                         DirNode ''exclude'' [FileNode ''foo.txt''] None,
                         FileNode ''foo.txt''] None)"
    by (simp add: tableOS_def searchWorld_def)
  have found: "specSearch exampleLibrary tableOS searchWorld rootValidator ''/root'' ''foo''
                 [''exclude''] ''/root''
                 (DirNode ''root''
                    [DirNode ''dir1'' [FileNode ''foo.txt''] None,
                     DirNode ''exclude'' [FileNode ''foo.txt''] None,
                     FileNode ''foo.txt''] None)
               = [''/root/dir1/foo.txt'', ''/root/foo.txt'']"
    by code_simp
  have m1: "Match exampleLibrary (''**/'' @ ''exclude'' @ ''/**'') ''exclude/foo.txt'' = Some True"
    and m2: "Match exampleLibrary (''**/'' @ ''exclude'' @ ''/**'') ''exclude'' = Some True"
    and m3: "Match exampleLibrary (''**/'' @ ''exclude'' @ ''/**'') ''dir1/foo.txt'' \<noteq> Some True"
    by code_simp+
  note inst = SearchFiles_prunes_and_matches [OF r p, where lib = exampleLibrary
      and os = tableOS and w = searchWorld and pv = rootValidator
      and excludes = "[''exclude'']" and name = "''exclude''"]
  have c1: "SearchFiles exampleLibrary tableOS searchWorld rootValidator ''/root'' ''foo''
              [''exclude''] = Inr [''/root/dir1/foo.txt'', ''/root/foo.txt'']"
    using inst [THEN conjunct1] by (simp only: tree found sum.case)
  have c2: "shouldExclude exampleLibrary ''exclude/foo.txt'' [''exclude'']"
    using inst [where rel = "''exclude/foo.txt''", THEN conjunct2, THEN conjunct2, THEN mp, OF n]
      m1 by (simp only:)
  have c3: "shouldExclude exampleLibrary ''exclude'' [''exclude'']"
    using inst [where rel = "''exclude''", THEN conjunct2, THEN conjunct2, THEN mp, OF n]
      m2 by (simp only:)
  have c4: "\<not> shouldExclude exampleLibrary ''dir1/foo.txt'' [''exclude'']"
    using inst [where rel = "''dir1/foo.txt''", THEN conjunct2, THEN conjunct2, THEN mp, OF n]
      m3 by simp
  show ?thesis by (intro conjI c1 c2 c3 c4)
qed

text \<open>
  The same search run directly, with the pattern in capitals, and the callback on a
  name in capitals: the name and the pattern are both put in lower case. The callback
  answers \<open>SkipDir\<close> for the excluded directory.
\<close>

lemma SearchFiles_exclude_example:
  "SearchFiles exampleLibrary tableOS searchWorld rootValidator ''/root'' ''foo'' [''exclude'']
     = Inr [''/root/dir1/foo.txt'', ''/root/foo.txt'']
   \<and> SearchFiles exampleLibrary tableOS searchWorld rootValidator ''/root'' ''FOO'' [''exclude'']
     = Inr [''/root/dir1/foo.txt'', ''/root/foo.txt'']
   \<and> searchFn exampleLibrary tableOS searchWorld rootValidator ''/root'' ''foo'' [''exclude'']
         ''/root/foo.txt'' (Entry ''FOO.TXT'' False) [] = (WalkNil, [''/root/foo.txt''])
   \<and> searchFn exampleLibrary tableOS searchWorld rootValidator ''/root'' ''foo'' [''exclude'']
         ''/root/exclude'' (Entry ''exclude'' True) [] = (WalkSkipDir, [])"
  by code_simp

section \<open>Editing: an edit that does not match\<close>

lemma HasPrefix_iff: "HasPrefix s p \<longleftrightarrow> (\<exists>post. s = p @ post)"
  unfolding HasPrefix_def
  by (metis append_eq_conv_conj append_take_drop_id)

lemma Contains_iff: "Contains s sub \<longleftrightarrow> specOccursIn sub s"
proof (induction s)
  case Nil
  then show ?case by (auto simp: specOccursIn_def)
next
  case (Cons c cs)
  show ?case
  proof
    assume "Contains (c # cs) sub"
    then consider "HasPrefix (c # cs) sub" | "Contains cs sub" by auto
    then show "specOccursIn sub (c # cs)"
    proof cases
      case 1
      then obtain post where "c # cs = sub @ post" by (auto simp: HasPrefix_iff)
      then have "c # cs = [] @ sub @ post" by simp
      then show ?thesis unfolding specOccursIn_def by blast
    next
      case 2
      then obtain pre post where "cs = pre @ sub @ post"
        using Cons.IH by (auto simp: specOccursIn_def)
      then have "c # cs = (c # pre) @ sub @ post" by simp
      then show ?thesis unfolding specOccursIn_def by blast
    qed
  next
    assume "specOccursIn sub (c # cs)"
    then obtain pre post where eq: "c # cs = pre @ sub @ post"
      by (auto simp: specOccursIn_def)
    show "Contains (c # cs) sub"
    proof (cases pre)
      case Nil
      then have "HasPrefix (c # cs) sub" using eq by (auto simp: HasPrefix_iff)
      then show ?thesis by simp
    next
      case (Cons p pre')
      then have "cs = pre' @ sub @ post" using eq by simp
      then have "specOccursIn sub cs" unfolding specOccursIn_def by blast
      then show ?thesis using Cons.IH by simp
    qed
  qed
qed

lemma linesMatchFrom_iff:
  "length xs = length ol \<Longrightarrow>
   linesMatchFrom xs ol \<longleftrightarrow> (\<forall>j < length ol. TrimSpace (xs ! j) = TrimSpace (ol ! j))"
proof (induction xs ol rule: linesMatchFrom.induct)
  case (1 c cs l ls)
  then show ?case by (auto simp: less_Suc_eq_0_disj)
qed auto

lemma linesMatch_window:
  "linesMatch (take (length ol) (drop k cl)) ol \<longleftrightarrow>
     (k + length ol \<le> length cl \<or> ol = []) \<and>
     (\<forall>j < length ol. TrimSpace (cl ! (k + j)) = TrimSpace (ol ! j))"
proof (cases "k + length ol \<le> length cl")
  case True
  then have len: "length (take (length ol) (drop k cl)) = length ol" by simp
  show ?thesis using True linesMatchFrom_iff [OF len] by (simp add: linesMatch_def)
next
  case False
  show ?thesis
  proof (cases "ol = []")
    case True
    then show ?thesis by (simp add: linesMatch_def)
  next
    case f: False
    then have "0 < length ol" by simp
    with False have "length cl - k < length ol" by arith
    then have "length (take (length ol) (drop k cl)) \<noteq> length ol" by simp
    then show ?thesis using False f by (simp add: linesMatch_def)
  qed
qed

lemma findMatchingLines_None:
  "findMatchingLines cl ol i = None \<longleftrightarrow>
     (\<forall>k \<ge> i. int k \<le> int (length cl) - int (length ol) \<longrightarrow>
        \<not> linesMatch (take (length ol) (drop k cl)) ol)"
proof (induction cl ol i rule: findMatchingLines.induct)
  case (1 cl ol i)
  show ?case
  proof (cases "int i \<le> int (length cl) - int (length ol)")
    case False
    then show ?thesis by (subst findMatchingLines.simps) auto
  next
    case True
    show ?thesis
    proof (cases "linesMatch (take (length ol) (drop i cl)) ol")
      case m: True
      then show ?thesis using True by (subst findMatchingLines.simps) auto
    next
      case m: False
      have "findMatchingLines cl ol i = findMatchingLines cl ol (i + 1)"
        using True m by (subst findMatchingLines.simps) simp
      also have "\<dots> = None \<longleftrightarrow> (\<forall>k \<ge> i + 1. int k \<le> int (length cl) - int (length ol) \<longrightarrow>
        \<not> linesMatch (take (length ol) (drop k cl)) ol)"
        using 1 True m by simp
      also have "\<dots> \<longleftrightarrow> (\<forall>k \<ge> i. int k \<le> int (length cl) - int (length ol) \<longrightarrow>
        \<not> linesMatch (take (length ol) (drop k cl)) ol)"
      proof -
        have "\<And>k. i \<le> k \<longleftrightarrow> k = i \<or> i + 1 \<le> k" by arith
        then show ?thesis using m by metis
      qed
      finally show ?thesis .
    qed
  qed
qed

lemma Split_nonempty: "Split s sep \<noteq> []"
  by (induction s) (auto split: list.splits)

lemma applyLineBasedEdit_fails_iff:
  "(\<exists>e. applyLineBasedEdit content old new = Inl e) \<longleftrightarrow> \<not> specTrimmedRun old content"
proof -
  let ?ol = "Split old LF" and ?cl = "Split content LF"
  have ne: "?ol \<noteq> []" by (rule Split_nonempty)
  have "(\<exists>e. applyLineBasedEdit content old new = Inl e) \<longleftrightarrow> findMatchingLines ?cl ?ol 0 = None"
    by (auto simp: applyLineBasedEdit_def Let_def split: option.splits)
  also have "\<dots> \<longleftrightarrow> (\<forall>k. int k \<le> int (length ?cl) - int (length ?ol) \<longrightarrow>
        \<not> linesMatch (take (length ?ol) (drop k ?cl)) ?ol)"
    by (simp add: findMatchingLines_None)
  also have "\<dots> \<longleftrightarrow> \<not> specTrimmedRun old content"
  proof -
    have "\<And>k. int k \<le> int (length ?cl) - int (length ?ol) \<longleftrightarrow> k + length ?ol \<le> length ?cl"
      by arith
    then show ?thesis
      unfolding specTrimmedRun_def Let_def linesMatch_window using ne by auto
  qed
  finally show ?thesis .
qed

lemma applyEditsFrom_append:
  "applyEditsFrom k c (xs @ ys) =
     (case applyEditsFrom k c xs of
        Inl e \<Rightarrow> Inl e
      | Inr c' \<Rightarrow> applyEditsFrom (k + length xs) c' ys)"
  by (induction xs arbitrary: k c) (auto simp: Let_def split: sum.splits)

lemma applyLineBasedEdit_error:
  "applyLineBasedEdit content old new = Inl e \<Longrightarrow> e = ErrNoMatchingLines"
  by (auto simp: applyLineBasedEdit_def Let_def split: option.splits)

lemma applyEditsFrom_unmatched:
  assumes "\<not> specEditApplies c edit"
  shows "applyEditsFrom k c (edit # rest) = Inl (ErrCouldNotApplyEdit (k + 1) ErrNoMatchingLines)"
proof -
  let ?old = "normalizeLineEndings (OldText edit)"
  let ?new = "normalizeLineEndings (NewText edit)"
  from assms have nc: "\<not> Contains c ?old" and nr: "\<not> specTrimmedRun ?old c"
    by (auto simp: specEditApplies_def Contains_iff)
  from nr obtain e where "applyLineBasedEdit c ?old ?new = Inl e"
    using applyLineBasedEdit_fails_iff by blast
  then have "applyLineBasedEdit c ?old ?new = Inl ErrNoMatchingLines"
    using applyLineBasedEdit_error by blast
  then show ?thesis using nc by (simp add: Let_def)
qed

text \<open>
  C6. When the edits before the edit of index \<open>i\<close> (counted from 0) apply in turn and
  the edit of index \<open>i\<close> matches the content they leave neither by exact substring
  nor by a run of lines equal after trimming, \<open>EditFile\<close> fails with the error
  "could not apply edit \<open>i + 1\<close>" (edits are numbered from 1 in the message), so
  it names the first edit that could not be applied; the filesystem it leaves is the one
  it was given, whatever \<open>dryRun\<close> is: nothing of the earlier edits is written.
\<close>

theorem EditFile_unmatched_edit_aborts:
  assumes "filePath \<noteq> []"
    and "ReadFile os w filePath = Inr original"
    and "i < length edits"
    and "applyEdits original (take i edits) = Inr c"
    and "\<not> specEditApplies c (edits ! i)"
  shows "EditFile os patchText w filePath edits dryRun
           = (Inl (ErrCouldNotApplyEdit (i + 1) ErrNoMatchingLines), w)"
proof -
  have split: "edits = take i edits @ (edits ! i) # drop (Suc i) edits"
    using assms(3) by (simp add: id_take_nth_drop)
  have "applyEdits original edits
          = applyEditsFrom 0 (normalizeLineEndings original)
              (take i edits @ (edits ! i) # drop (Suc i) edits)"
    using split by (simp add: applyEdits_def)
  also have "\<dots> = applyEditsFrom i c ((edits ! i) # drop (Suc i) edits)"
    using assms(3,4) by (simp add: applyEditsFrom_append applyEdits_def)
  also have "\<dots> = Inl (ErrCouldNotApplyEdit (i + 1) ErrNoMatchingLines)"
    by (rule applyEditsFrom_unmatched [OF assms(5)])
  finally have "applyEdits original edits = Inl (ErrCouldNotApplyEdit (i + 1) ErrNoMatchingLines)" .
  moreover have "edits \<noteq> []" using assms(3) by auto
  ultimately show ?thesis using assms(1,2) by (simp add: EditFile_def)
qed

lemma editWorld_read: "ReadFile tableOS editWorld ''/sandbox/a.txt'' = Inr ''hello world''"
  by code_simp

theorem EditFile_unmatched_edit_aborts_witness:
  "EditFile tableOS (\<lambda>a b. b) editWorld ''/sandbox/a.txt''
     [\<lparr>OldText = ''hello'', NewText = ''hi''\<rparr>, \<lparr>OldText = ''hello'', NewText = ''x''\<rparr>] False
     = (Inl (ErrCouldNotApplyEdit 2 ErrNoMatchingLines), editWorld)
   \<and> map_of (files editWorld) ''/sandbox/a.txt'' = Some ''hello world''"
proof -
  let ?edits = "[\<lparr>OldText = ''hello'', NewText = ''hi''\<rparr>, \<lparr>OldText = ''hello'', NewText = ''x''\<rparr>]"
  have ne: "''/sandbox/a.txt'' \<noteq> []" by simp
  have i: "(1::nat) < length ?edits" by simp
  have first: "applyEdits ''hello world'' (take 1 ?edits) = Inr ''hi world''"
    by code_simp
  have nc: "\<not> Contains ''hi world'' ''hello''" by code_simp
  have "applyLineBasedEdit ''hi world'' ''hello'' ''x'' = Inl ErrNoMatchingLines" by code_simp
  then have nr: "\<not> specTrimmedRun ''hello'' ''hi world''"
    using applyLineBasedEdit_fails_iff by blast
  have second: "\<not> specEditApplies ''hi world'' (?edits ! 1)"
    using nc nr by (simp add: specEditApplies_def Contains_iff)
  have "EditFile tableOS (\<lambda>a b. b) editWorld ''/sandbox/a.txt'' ?edits False
          = (Inl (ErrCouldNotApplyEdit (1 + 1) ErrNoMatchingLines), editWorld)"
    by (rule EditFile_unmatched_edit_aborts [OF ne editWorld_read i first second])
  then show ?thesis by (simp add: editWorld_def)
qed

section \<open>The directory tree: depth and cycles\<close>


lemma buildTree_visited:
  "depth \<le> maxTreeDepth \<Longrightarrow> realPathOf os w dirPath \<in> visited \<Longrightarrow>
   buildTree os w pv dirPath visited depth = (Inr [], visited)"
  by (simp add: buildTree.simps)


lemma buildTree_readable:
  "depth \<le> maxTreeDepth \<Longrightarrow> ReadDir os w dirPath = Inr entries \<Longrightarrow>
   \<exists>tree. fst (buildTree os w pv dirPath visited depth) = Inr tree"
  by (simp add: buildTree.simps Let_def split: sum.splits prod.splits)




lemma DirectoryTree_readable:
  assumes "root \<noteq> []" and "ValidatePath os w pv root = Inr vp" and "ReadDir os w vp = Inr entries"
  shows "\<exists>tree. DirectoryTree os w pv root = Inr tree"
proof -
  obtain tree where "fst (buildTree os w pv vp {} 0) = Inr tree"
    using buildTree_readable [OF _ assms(3), of 0 pv "{}"] by auto
  then show ?thesis using assms(1,2) by (simp add: DirectoryTree_def)
qed

lemma visited_grows:
  "visited \<subseteq> snd (buildTree os w pv dirPath visited depth)"
  "visited \<subseteq> snd (buildEntries os w pv dirPath entries visited depth)"
proof (induction os w pv dirPath visited depth and os w pv dirPath entries visited depth
        rule: buildTree_buildEntries.induct)
  case (1 os w pv dirPath visited depth)
  show ?case
  proof (cases "depth > maxTreeDepth \<or> realPathOf os w dirPath \<in> visited")
    case True
    then show ?thesis by (auto simp: buildTree.simps)
  next
    case False
    show ?thesis
    proof (cases "ReadDir os w dirPath")
      case (Inl e)
      then show ?thesis using False by (auto simp: buildTree.simps)
    next
      case (Inr entries)
      have "insert (realPathOf os w dirPath) visited
              \<subseteq> snd (buildEntries os w pv dirPath entries (insert (realPathOf os w dirPath) visited) depth)"
        using 1 False Inr by simp
      then show ?thesis using False Inr
        by (auto simp: buildTree.simps split: prod.splits)
    qed
  qed
next
  case (2 os w pv dirPath visited depth)
  then show ?case by (simp add: buildEntries.simps)
next
  case (3 os w pv dirPath entry entries visited depth)
  show ?case
  proof (cases "snd entry")
    case False
    then show ?thesis using 3 by (auto simp: buildEntries.simps split: prod.splits)
  next
    case True
    show ?thesis
    proof (cases "ValidatePath os w pv (Join dirPath (fst entry))")
      case (Inl e)
      then show ?thesis using 3 True by (auto simp: buildEntries.simps)
    next
      case (Inr vp)
      obtain sub v1 where bt: "buildTree os w pv vp visited (depth + 1) = (sub, v1)"
        by (cases "buildTree os w pv vp visited (depth + 1)")
      have s1: "visited \<subseteq> v1" using 3(2) [OF True refl Inr] bt by simp
      have s2: "v1 \<subseteq> snd (buildEntries os w pv dirPath entries v1 depth)"
        using 3(3) [OF True refl Inr bt [symmetric] refl] by simp
      show ?thesis using True Inr bt s1 s2
        by (auto simp: buildEntries.simps Let_def split: prod.splits)
    qed
  qed
qed

lemma buildEntries_child_visited:
  assumes "snd entry"
    and "ValidatePath os w pv (Join dirPath (fst entry)) = Inr validPath"
    and "depth < maxTreeDepth"
    and "realPathOf os w validPath \<in> visited"
  shows "buildEntries os w pv dirPath (entry # entries) visited depth
           = (TreeEntry (fst entry) ''directory'' (Some [])
                # fst (buildEntries os w pv dirPath entries visited depth),
              snd (buildEntries os w pv dirPath entries visited depth))"
proof -
  have "buildTree os w pv validPath visited (depth + 1) = (Inr [], visited)"
    using assms(3,4) by (intro buildTree_visited) auto
  then show ?thesis using assms(1,2)
    by (simp add: buildEntries.simps Let_def split: prod.splits)
qed


lemma buildTree_marks_visited:
  "depth \<le> maxTreeDepth \<Longrightarrow>
   realPathOf os w dirPath \<in> snd (buildTree os w pv dirPath visited depth)"
proof (cases "realPathOf os w dirPath \<in> visited")
  case True
  show ?thesis by (rule subsetD [OF visited_grows(1) True])
next
  case False
  assume d: "depth \<le> maxTreeDepth"
  show ?thesis
  proof (cases "ReadDir os w dirPath")
    case (Inl e)
    then show ?thesis using False d by (simp add: buildTree.simps)
  next
    case (Inr entries)
    have "insert (realPathOf os w dirPath) visited
            \<subseteq> snd (buildEntries os w pv dirPath entries (insert (realPathOf os w dirPath) visited) depth)"
      by (rule visited_grows(2))
    then show ?thesis using False d Inr
      by (auto simp: buildTree.simps split: prod.splits)
  qed
qed




lemma buildTree_unvisited:
  assumes "depth \<le> maxTreeDepth" and "realPathOf os w dirPath \<notin> visited"
    and "ReadDir os w dirPath = Inr dirEntries"
  shows "buildTree os w pv dirPath visited depth
           = (Inr (fst (buildEntries os w pv dirPath dirEntries
                          (insert (realPathOf os w dirPath) visited) depth)),
              snd (buildEntries os w pv dirPath dirEntries
                     (insert (realPathOf os w dirPath) visited) depth))"
  using assms by (simp add: buildTree.simps Let_def split: prod.splits)

lemma DirectoryTree_root:
  assumes "root \<noteq> []" and "ValidatePath os w pv root = Inr validRoot"
    and "ReadDir os w validRoot = Inr rootEntries"
  shows "DirectoryTree os w pv root
           = Inr (fst (buildEntries os w pv validRoot rootEntries
                         {realPathOf os w validRoot} 0))"
proof -
  have "buildTree os w pv validRoot {} 0
          = (Inr (fst (buildEntries os w pv validRoot rootEntries
                         (insert (realPathOf os w validRoot) {}) 0)),
             snd (buildEntries os w pv validRoot rootEntries
                    (insert (realPathOf os w validRoot) {}) 0))"
    by (rule buildTree_unvisited [OF _ _ assms(3)]) simp_all
  then show ?thesis using assms(1,2) by (simp add: DirectoryTree_def)
qed

lemma buildEntries_file:
  assumes "\<not> snd entry"
  shows "buildEntries os w pv dirPath (entry # entries) visited depth
           = (TreeEntry (fst entry) ''file'' None
                # fst (buildEntries os w pv dirPath entries visited depth),
              snd (buildEntries os w pv dirPath entries visited depth))"
  using assms by (simp add: buildEntries.simps split: prod.splits)

lemma buildEntries_directory:
  assumes "snd entry"
    and "ValidatePath os w pv (Join dirPath (fst entry)) = Inr validPath"
  shows "buildEntries os w pv dirPath (entry # entries) visited depth
           = (TreeEntry (fst entry) ''directory''
                (Some (case fst (buildTree os w pv validPath visited (depth + 1)) of
                         Inl _ \<Rightarrow> []
                       | Inr children \<Rightarrow> children))
                # fst (buildEntries os w pv dirPath entries
                         (snd (buildTree os w pv validPath visited (depth + 1))) depth),
              snd (buildEntries os w pv dirPath entries
                     (snd (buildTree os w pv validPath visited (depth + 1))) depth))"
  using assms by (simp add: buildEntries.simps Let_def split: prod.splits)

text \<open>
  C5. \<open>buildTree\<close> is a total function (its recursion is bounded by the depth
  ceiling), so \<open>DirectoryTree\<close> returns on every filesystem, cyclic or not. On a root
  that validates and whose directory can be read it returns, without error, the
  entries built for the root's listing, starting from the set of visited real paths
  that holds the root's real path alone. An entry that is not a directory (a symbolic
  link is listed so, wherever it points) is listed as a file and not entered. For an
  entry that is a directory, the subdirectory is built with the set of visited paths as
  it is then, the entry gets the children built (none when the build failed), and the
  set that build returns is the one the entries that follow are built with: one set is
  threaded through the whole build. A directory not yet in the set is added under its
  resolved absolute path before its listing is built; a directory whose real path is
  in the set yields the empty list and leaves the set as it is, and its entry in the
  parent carries an empty children list. The set only grows.
\<close>

theorem DirectoryTree_cycle_safe:
  "(root \<noteq> [] \<and> ValidatePath os w pv root = Inr validRoot
      \<and> ReadDir os w validRoot = Inr rootEntries \<longrightarrow>
      DirectoryTree os w pv root
        = Inr (fst (buildEntries os w pv validRoot rootEntries
                      {realPathOf os w validRoot} 0)))
   \<and> (\<not> snd entry \<longrightarrow>
        buildEntries os w pv parent (entry # entries) visited' depth'
          = (TreeEntry (fst entry) ''file'' None
               # fst (buildEntries os w pv parent entries visited' depth'),
             snd (buildEntries os w pv parent entries visited' depth')))
   \<and> (snd entry \<and> ValidatePath os w pv (Join parent (fst entry)) = Inr validPath \<longrightarrow>
        buildEntries os w pv parent (entry # entries) visited' depth'
          = (TreeEntry (fst entry) ''directory''
               (Some (case fst (buildTree os w pv validPath visited' (depth' + 1)) of
                        Inl _ \<Rightarrow> []
                      | Inr children \<Rightarrow> children))
               # fst (buildEntries os w pv parent entries
                        (snd (buildTree os w pv validPath visited' (depth' + 1))) depth'),
             snd (buildEntries os w pv parent entries
                    (snd (buildTree os w pv validPath visited' (depth' + 1))) depth')))
   \<and> (depth \<le> maxTreeDepth \<and> realPathOf os w dirPath \<notin> visited
        \<and> ReadDir os w dirPath = Inr dirEntries \<longrightarrow>
        buildTree os w pv dirPath visited depth
          = (Inr (fst (buildEntries os w pv dirPath dirEntries
                         (insert (realPathOf os w dirPath) visited) depth)),
             snd (buildEntries os w pv dirPath dirEntries
                    (insert (realPathOf os w dirPath) visited) depth)))
   \<and> (depth \<le> maxTreeDepth \<and> realPathOf os w dirPath \<in> visited \<longrightarrow>
        buildTree os w pv dirPath visited depth = (Inr [], visited))
   \<and> (snd entry \<and> ValidatePath os w pv (Join parent (fst entry)) = Inr validPath
        \<and> depth' < maxTreeDepth \<and> realPathOf os w validPath \<in> visited' \<longrightarrow>
        buildEntries os w pv parent (entry # entries) visited' depth'
          = (TreeEntry (fst entry) ''directory'' (Some [])
               # fst (buildEntries os w pv parent entries visited' depth'),
             snd (buildEntries os w pv parent entries visited' depth')))
   \<and> visited \<subseteq> snd (buildTree os w pv dirPath visited depth)
   \<and> visited' \<subseteq> snd (buildEntries os w pv parent entries visited' depth')
   \<and> (depth \<le> maxTreeDepth \<longrightarrow>
        realPathOf os w dirPath \<in> snd (buildTree os w pv dirPath visited depth))"
proof (intro conjI impI)
  assume a: "root \<noteq> [] \<and> ValidatePath os w pv root = Inr validRoot
      \<and> ReadDir os w validRoot = Inr rootEntries"
  show "DirectoryTree os w pv root
        = Inr (fst (buildEntries os w pv validRoot rootEntries
                      {realPathOf os w validRoot} 0))"
    by (rule DirectoryTree_root) (use a in simp_all)
next
  assume "\<not> snd entry"
  then show "buildEntries os w pv parent (entry # entries) visited' depth'
          = (TreeEntry (fst entry) ''file'' None
               # fst (buildEntries os w pv parent entries visited' depth'),
             snd (buildEntries os w pv parent entries visited' depth'))"
    by (rule buildEntries_file)
next
  assume a: "snd entry \<and> ValidatePath os w pv (Join parent (fst entry)) = Inr validPath"
  show "buildEntries os w pv parent (entry # entries) visited' depth'
          = (TreeEntry (fst entry) ''directory''
               (Some (case fst (buildTree os w pv validPath visited' (depth' + 1)) of
                        Inl _ \<Rightarrow> []
                      | Inr children \<Rightarrow> children))
               # fst (buildEntries os w pv parent entries
                        (snd (buildTree os w pv validPath visited' (depth' + 1))) depth'),
             snd (buildEntries os w pv parent entries
                    (snd (buildTree os w pv validPath visited' (depth' + 1))) depth'))"
    by (rule buildEntries_directory) (use a in simp_all)
next
  assume a: "depth \<le> maxTreeDepth \<and> realPathOf os w dirPath \<notin> visited
        \<and> ReadDir os w dirPath = Inr dirEntries"
  show "buildTree os w pv dirPath visited depth
          = (Inr (fst (buildEntries os w pv dirPath dirEntries
                         (insert (realPathOf os w dirPath) visited) depth)),
             snd (buildEntries os w pv dirPath dirEntries
                    (insert (realPathOf os w dirPath) visited) depth))"
    by (rule buildTree_unvisited) (use a in simp_all)
next
  assume a: "depth \<le> maxTreeDepth \<and> realPathOf os w dirPath \<in> visited"
  show "buildTree os w pv dirPath visited depth = (Inr [], visited)"
    by (rule buildTree_visited) (use a in simp_all)
next
  assume a: "snd entry \<and> ValidatePath os w pv (Join parent (fst entry)) = Inr validPath
        \<and> depth' < maxTreeDepth \<and> realPathOf os w validPath \<in> visited'"
  show "buildEntries os w pv parent (entry # entries) visited' depth'
          = (TreeEntry (fst entry) ''directory'' (Some [])
               # fst (buildEntries os w pv parent entries visited' depth'),
             snd (buildEntries os w pv parent entries visited' depth'))"
    by (rule buildEntries_child_visited [of entry os w pv parent validPath]) (use a in simp_all)
next
  show "visited \<subseteq> snd (buildTree os w pv dirPath visited depth)"
    by (rule visited_grows(1))
next
  show "visited' \<subseteq> snd (buildEntries os w pv parent entries visited' depth')"
    by (rule visited_grows(2))
next
  assume "depth \<le> maxTreeDepth"
  then show "realPathOf os w dirPath \<in> snd (buildTree os w pv dirPath visited depth)"
    by (rule buildTree_marks_visited)
qed

text \<open>
  The test \<open>TestDirectoryTreeSymlinkLoop\<close>: \<open>/base/sub/loop\<close> is a symbolic link to
  \<open>/base\<close>. The tree is returned; the link is listed as a file.
\<close>

lemma loopWorld_tree:
  "DirectoryTree tableOS loopWorld baseValidator ''/base''
     = Inr [TreeEntry ''sub'' ''directory'' (Some [TreeEntry ''loop'' ''file'' None])]"
  by code_simp

theorem DirectoryTree_cycle_safe_witness:
  "DirectoryTree tableOS loopWorld baseValidator ''/base''
     = Inr [TreeEntry ''sub'' ''directory'' (Some [TreeEntry ''loop'' ''file'' None])]
   \<and> buildEntries tableOS loopWorld baseValidator ''/base/sub'' [(''loop'', False)]
         {''/base'', ''/base/sub''} 1
       = ([TreeEntry ''loop'' ''file'' None], {''/base'', ''/base/sub''})
   \<and> buildEntries tableOS loopWorld baseValidator ''/base'' [(''sub'', True)] {''/base''} 0
       = ([TreeEntry ''sub'' ''directory'' (Some [TreeEntry ''loop'' ''file'' None])],
          {''/base'', ''/base/sub''})
   \<and> buildTree tableOS loopWorld baseValidator ''/base/sub'' {''/base''} 1
       = (Inr [TreeEntry ''loop'' ''file'' None], {''/base'', ''/base/sub''})
   \<and> buildTree tableOS loopWorld baseValidator ''/base/sub/loop'' {''/base'', ''/base/sub''} 2
       = (Inr [], {''/base'', ''/base/sub''})
   \<and> buildEntries tableOS loopWorld baseValidator ''/base'' [(''sub'', True)]
         {''/base'', ''/base/sub''} 0
       = ([TreeEntry ''sub'' ''directory'' (Some [])], {''/base'', ''/base/sub''})
   \<and> ''/base'' \<in> snd (buildTree tableOS loopWorld baseValidator ''/base'' {} 0)"
proof -
  note inst = DirectoryTree_cycle_safe [where os = tableOS and w = loopWorld
      and pv = baseValidator and root = "''/base''" and validRoot = "''/base''"
      and rootEntries = "[(''sub'', True)]" and entries = "[]"]
  have ne: "''/base'' \<noteq> []" by simp
  have vroot: "ValidatePath tableOS loopWorld baseValidator ''/base'' = Inr ''/base''"
    by code_simp
  have rd: "ReadDir tableOS loopWorld ''/base'' = Inr [(''sub'', True)]"
    by code_simp
  have rdsub: "ReadDir tableOS loopWorld ''/base/sub'' = Inr [(''loop'', False)]"
    by code_simp
  have rp: "realPathOf tableOS loopWorld ''/base'' = ''/base''"
    by code_simp
  have rpsub: "realPathOf tableOS loopWorld ''/base/sub'' = ''/base/sub''"
    by code_simp
  have rploop: "realPathOf tableOS loopWorld ''/base/sub/loop'' = ''/base''"
    by code_simp
  have vsub: "ValidatePath tableOS loopWorld baseValidator
                (Join ''/base'' (fst (''sub'', True))) = Inr ''/base/sub''"
    by code_simp
  have isdir: "snd (''sub'', True)" and isfile: "\<not> snd (''loop'', False)" by simp_all
  have d0: "(0::nat) \<le> maxTreeDepth" and d0': "(0::nat) < maxTreeDepth"
    and d1: "(1::nat) \<le> maxTreeDepth" and d2: "(2::nat) \<le> maxTreeDepth"
    by (simp_all add: maxTreeDepth_def)
  have nil: "buildEntries tableOS loopWorld baseValidator p [] v d = ([], v)" for p v d
    by (simp add: buildEntries.simps)
  have ins: "insert ''/base/sub'' {''/base''} = {''/base'', ''/base/sub''}" by auto
  have c2: "buildEntries tableOS loopWorld baseValidator ''/base/sub'' [(''loop'', False)]
         {''/base'', ''/base/sub''} 1
       = ([TreeEntry ''loop'' ''file'' None], {''/base'', ''/base/sub''})"
    using inst [where entry = "(''loop'', False)" and parent = "''/base/sub''"
          and visited' = "{''/base'', ''/base/sub''}" and depth' = 1,
          THEN conjunct2, THEN conjunct1, THEN mp, OF isfile]
    by (simp only: nil fst_conv snd_conv)
  have c4: "buildTree tableOS loopWorld baseValidator ''/base/sub'' {''/base''} 1
       = (Inr [TreeEntry ''loop'' ''file'' None], {''/base'', ''/base/sub''})"
  proof -
    have unseen: "realPathOf tableOS loopWorld ''/base/sub'' \<notin> {''/base''}"
      by (simp add: rpsub)
    show ?thesis
      using inst [where dirPath = "''/base/sub''" and visited = "{''/base''}" and depth = 1
            and dirEntries = "[(''loop'', False)]",
            THEN conjunct2, THEN conjunct2, THEN conjunct2, THEN conjunct1, THEN mp,
            OF conjI [OF d1 conjI [OF unseen rdsub]]]
      by (simp only: rpsub ins c2 fst_conv snd_conv)
  qed
  have c1: "DirectoryTree tableOS loopWorld baseValidator ''/base''
     = Inr [TreeEntry ''sub'' ''directory'' (Some [TreeEntry ''loop'' ''file'' None])]"
  proof -
    have "buildEntries tableOS loopWorld baseValidator ''/base'' [(''sub'', True)] {''/base''} 0
       = ([TreeEntry ''sub'' ''directory'' (Some [TreeEntry ''loop'' ''file'' None])],
          {''/base'', ''/base/sub''})"
      by code_simp
    then show ?thesis
      using inst [THEN conjunct1, THEN mp, OF conjI [OF ne conjI [OF vroot rd]]]
      by (simp only: rp fst_conv)
  qed
  have c3: "buildEntries tableOS loopWorld baseValidator ''/base'' [(''sub'', True)] {''/base''} 0
       = ([TreeEntry ''sub'' ''directory'' (Some [TreeEntry ''loop'' ''file'' None])],
          {''/base'', ''/base/sub''})"
    using inst [where entry = "(''sub'', True)" and parent = "''/base''"
          and validPath = "''/base/sub''" and visited' = "{''/base''}" and depth' = 0,
          THEN conjunct2, THEN conjunct2, THEN conjunct1, THEN mp, OF conjI [OF isdir vsub]]
    by (simp only: add_0 c4 nil fst_conv snd_conv sum.case)
  have c5: "buildTree tableOS loopWorld baseValidator ''/base/sub/loop''
              {''/base'', ''/base/sub''} 2
       = (Inr [], {''/base'', ''/base/sub''})"
  proof -
    have seen: "realPathOf tableOS loopWorld ''/base/sub/loop'' \<in> {''/base'', ''/base/sub''}"
      by (simp add: rploop)
    show ?thesis
      by (rule inst [where dirPath = "''/base/sub/loop''"
            and visited = "{''/base'', ''/base/sub''}" and depth = 2,
            THEN conjunct2, THEN conjunct2, THEN conjunct2, THEN conjunct2, THEN conjunct1,
            THEN mp, OF conjI [OF d2 seen]])
  qed
  have c6: "buildEntries tableOS loopWorld baseValidator ''/base'' [(''sub'', True)]
         {''/base'', ''/base/sub''} 0
       = ([TreeEntry ''sub'' ''directory'' (Some [])], {''/base'', ''/base/sub''})"
  proof -
    have seen: "realPathOf tableOS loopWorld ''/base/sub'' \<in> {''/base'', ''/base/sub''}"
      by (simp add: rpsub)
    show ?thesis
      using inst [where entry = "(''sub'', True)" and parent = "''/base''"
            and validPath = "''/base/sub''" and visited' = "{''/base'', ''/base/sub''}"
            and depth' = 0,
            THEN conjunct2, THEN conjunct2, THEN conjunct2, THEN conjunct2, THEN conjunct2,
            THEN conjunct1, THEN mp, OF conjI [OF isdir conjI [OF vsub conjI [OF d0' seen]]]]
      by (simp only: nil fst_conv snd_conv)
  qed
  have c7: "''/base'' \<in> snd (buildTree tableOS loopWorld baseValidator ''/base'' {} 0)"
    using inst [where depth = 0 and dirPath = "''/base''" and visited = "{}",
          THEN conjunct2, THEN conjunct2, THEN conjunct2, THEN conjunct2, THEN conjunct2,
          THEN conjunct2, THEN conjunct2, THEN conjunct2, THEN mp, OF d0]
    by (simp only: rp)
  show ?thesis by (intro conjI c1 c2 c3 c4 c5 c6 c7)
qed

section \<open>Containment on cleaned absolute paths\<close>

lemma Split_no_sep: "sep \<notin> set e \<Longrightarrow> Split e sep = [e]"
  by (induction e) auto

lemma Split_append_sep:
  "sep \<notin> set e \<Longrightarrow> Split (e @ sep # rest) sep = e # Split rest sep"
  by (induction e) (auto split: list.splits simp: Split_nonempty)

lemma Split_elems_no_sep: "e \<in> set (Split s sep) \<Longrightarrow> sep \<notin> set e"
  by (induction s arbitrary: e) (auto split: if_splits list.splits)

lemma JoinStrings_Cons:
  "ss \<noteq> [] \<Longrightarrow> JoinStrings (s # ss) sep = s @ sep @ JoinStrings ss sep"
  by (cases ss) auto

lemma JoinStrings_snoc:
  "es \<noteq> [] \<Longrightarrow> JoinStrings (es @ [n]) sep = JoinStrings es sep @ sep @ n"
  by (induction es sep rule: JoinStrings.induct) auto

lemma Split_JoinStrings:
  "es \<noteq> [] \<Longrightarrow> \<forall>e \<in> set es. Separator \<notin> set e \<Longrightarrow>
   Split (JoinStrings es ''/'') Separator = es"
proof (induction es)
  case Nil
  then show ?case by simp
next
  case (Cons e es)
  show ?case
  proof (cases "es = []")
    case True
    then show ?thesis using Cons.prems by (simp add: Split_no_sep)
  next
    case False
    then have "JoinStrings (e # es) ''/'' = e @ Separator # JoinStrings es ''/''"
      by (simp add: JoinStrings_Cons)
    then show ?thesis using Cons False by (simp add: Split_append_sep)
  qed
qed

lemma cleanElems_names:
  "\<forall>e \<in> set xs. isName e \<Longrightarrow> cleanElems rooted out xs = rev out @ xs"
  by (induction xs arbitrary: out) (auto simp: isName_def)

lemma cleanElems_rooted_result:
  "\<forall>e \<in> set out. isName e \<Longrightarrow> \<forall>e \<in> set xs. Separator \<notin> set e \<Longrightarrow>
   \<forall>e \<in> set (cleanElems True out xs). isName e"
proof (induction xs arbitrary: out)
  case Nil
  then show ?case by simp
next
  case (Cons x xs)
  have tl_names: "\<forall>e \<in> set (tl out). isName e"
    using Cons.prems(1) by (cases out) auto
  have push: "x \<noteq> [] \<Longrightarrow> x \<noteq> ''.'' \<Longrightarrow> x \<noteq> ''..'' \<Longrightarrow> \<forall>e \<in> set (x # out). isName e"
    using Cons.prems by (auto simp: isName_def)
  show ?case
    using Cons.IH [OF Cons.prems(1)] Cons.IH [OF tl_names] Cons.IH [OF push] Cons.prems(2)
    by simp
qed

lemma Split_rootedPath:
  "\<forall>e \<in> set es. isName e \<Longrightarrow>
   Split (rootedPath es) Separator = [] # (if es = [] then [[]] else es)"
proof -
  assume n: "\<forall>e \<in> set es. isName e"
  then have ns: "\<forall>e \<in> set es. Separator \<notin> set e" by (simp add: isName_def)
  show ?thesis
  proof (cases "es = []")
    case True
    then show ?thesis by (simp add: rootedPath_def)
  next
    case False
    then show ?thesis using Split_JoinStrings [OF False ns] by (simp add: rootedPath_def)
  qed
qed

lemma Clean_rootedPath:
  assumes "\<forall>e \<in> set es. isName e"
  shows "Clean (rootedPath es) = rootedPath es"
proof -
  have "cleanElems True [] (Split (rootedPath es) Separator) = es"
    using assms by (simp add: Split_rootedPath cleanElems_names)
  then show ?thesis by (simp add: Clean_def rootedPath_def Let_def)
qed

lemma clean_absolute_is_rootedPath:
  assumes "IsAbs A" and "Clean A = A"
  shows "\<exists>es. (\<forall>e \<in> set es. isName e) \<and> A = rootedPath es"
proof -
  from assms(1) have ne: "A \<noteq> []" and hd: "hd A = Separator"
    by (cases A; simp add: IsAbs_def HasPrefix_def)+
  let ?es = "cleanElems True [] (Split A Separator)"
  have "\<forall>e \<in> set ?es. isName e"
    by (rule cleanElems_rooted_result) (auto dest: Split_elems_no_sep)
  moreover have "A = rootedPath ?es"
    using assms(2) ne hd by (simp add: Clean_def rootedPath_def Let_def)
  ultimately show ?thesis by blast
qed

lemma rootedPath_Split_inj:
  assumes "\<forall>e \<in> set es. isName e" and "\<forall>e \<in> set ps. isName e"
    and "rootedPath es = rootedPath ps"
  shows "es = ps"
proof -
  have "Split (rootedPath es) Separator = Split (rootedPath ps) Separator"
    using assms(3) by simp
  then have eq: "(if es = [] then [[]] else es) = (if ps = [] then [[]] else ps)"
    using assms(1,2) by (simp add: Split_rootedPath)
  have "[] \<notin> set es" "[] \<notin> set ps" using assms(1,2) by (auto simp: isName_def)
  then show ?thesis using eq by (auto split: if_splits)
qed

lemma pathElems_rootedPath:
  assumes "\<forall>e \<in> set es. isName e"
  shows "pathElems (rootedPath es) = [] # es"
proof (cases "es = []")
  case True
  then show ?thesis by (simp add: pathElems_def rootedPath_def)
next
  case False
  then have "last es \<in> set es" by simp
  then have "last es \<noteq> []" using assms by (auto simp: isName_def)
  then show ?thesis using False assms
    by (simp add: pathElems_def Split_rootedPath Let_def)
qed

lemma dropCommon_split:
  "dropCommon bs ts = (bs', ts') \<Longrightarrow>
   \<exists>common. bs = common @ bs' \<and> ts = common @ ts'"
proof (induction bs ts rule: dropCommon.induct)
  case (1 b bs t ts)
  show ?case
  proof (cases "b = t")
    case True
    then obtain common where "bs = common @ bs'" "ts = common @ ts'"
      using 1 by auto
    then have "b # bs = (b # common) @ bs' \<and> t # ts = (b # common) @ ts'"
      using True by simp
    then show ?thesis by blast
  next
    case False
    then have "b # bs = [] @ bs' \<and> t # ts = [] @ ts'" using 1 by auto
    then show ?thesis by blast
  qed
qed auto

lemma dropCommon_prefix:
  "fst (dropCommon bs ts) = [] \<longleftrightarrow> prefix bs ts"
  by (induction bs ts rule: dropCommon.induct) auto

lemma HasPrefix_JoinStrings_dotdot:
  "bs \<noteq> [] \<Longrightarrow> HasPrefix (JoinStrings (replicate (length bs) ''..'' @ ts) ''/'') ''..''"
proof -
  assume "bs \<noteq> []"
  then obtain n where n: "length bs = Suc n" by (cases bs) auto
  show ?thesis
  proof (cases "replicate n ''..'' @ ts = []")
    case True
    then show ?thesis using n by (simp add: HasPrefix_def)
  next
    case False
    then show ?thesis using n by (simp add: JoinStrings_Cons HasPrefix_def)
  qed
qed

lemma HasPrefix_JoinStrings_head:
  assumes "isName t"
  shows "HasPrefix (JoinStrings (t # ts) ''/'') ''..'' \<longleftrightarrow> HasPrefix t ''..''"
proof (cases "ts = []")
  case True
  then show ?thesis by simp
next
  case False
  then have j: "JoinStrings (t # ts) ''/'' = t @ ''/'' @ JoinStrings ts ''/''"
    by (simp add: JoinStrings_Cons)
  from assms obtain c cs where t: "t = c # cs" by (cases t) (auto simp: isName_def)
  show ?thesis
  proof (cases cs)
    case Nil
    then show ?thesis using t j by (simp add: HasPrefix_def)
  next
    case (Cons d ds)
    then show ?thesis using t j by (simp add: HasPrefix_def)
  qed
qed

lemma isPathUnderDirectory_rootedPath:
  assumes es: "\<forall>e \<in> set es. isName e" and ps: "\<forall>e \<in> set ps. isName e"
  shows "isPathUnderDirectory (rootedPath ps) (rootedPath es) \<longleftrightarrow>
           (\<exists>ts. ps = es @ ts \<and> (ts = [] \<or> \<not> HasPrefix (hd ts) ''..''))"
proof (cases "ps = es")
  case True
  then have "Rel (rootedPath es) (rootedPath ps) = Inr ''.''"
    by (simp add: Rel_def Let_def)
  then have "isPathUnderDirectory (rootedPath ps) (rootedPath es)"
    by (simp add: isPathUnderDirectory_def HasPrefix_def)
  then show ?thesis using True by auto
next
  case False
  then have neq: "rootedPath ps \<noteq> rootedPath es"
    using rootedPath_Split_inj [OF ps es] by auto
  obtain bs ts where dc: "dropCommon es ps = (bs, ts)"
    by (cases "dropCommon es ps") auto
  obtain common where sp: "es = common @ bs" "ps = common @ ts"
    using dropCommon_split [OF dc] by auto
  have nodd: "\<not> (bs \<noteq> [] \<and> hd bs = ''..'')"
  proof
    assume a: "bs \<noteq> [] \<and> hd bs = ''..''"
    have "hd bs \<in> set bs" by (rule hd_in_set) (use a in simp)
    then have "hd bs \<in> set es" using sp(1) by simp
    then have "isName (hd bs)" using es by simp
    then show False using a by (simp add: isName_def)
  qed
  have rel: "Rel (rootedPath es) (rootedPath ps)
               = (if bs \<noteq> [] then Inr (JoinStrings (replicate (length bs) ''..'' @ ts) ''/'')
                  else Inr (JoinStrings ts ''/''))"
  proof -
    have sl: "\<And>xs. rootedPath xs \<noteq> [] \<and> hd (rootedPath xs) = Separator
                \<and> rootedPath xs \<noteq> ''.''"
      by (simp add: rootedPath_def)
    have nodd': "(bs \<noteq> [] \<and> hd bs = ''..'') = False" using nodd by simp
    show ?thesis
      using neq dc sl
      by (simp add: Rel_def Let_def Clean_rootedPath [OF es] Clean_rootedPath [OF ps]
            pathElems_rootedPath [OF es] pathElems_rootedPath [OF ps] nodd')
  qed
  show ?thesis
  proof (cases "bs = []")
    case True
    then have ps_eq: "ps = es @ ts" using sp by simp
    then have tne: "ts \<noteq> []" using False by auto
    then obtain t ts' where t: "ts = t # ts'" by (cases ts) auto
    then have "isName t" using ps ps_eq by simp
    then have "HasPrefix (JoinStrings ts ''/'') ''..'' \<longleftrightarrow> HasPrefix (hd ts) ''..''"
      using t HasPrefix_JoinStrings_head by simp
    then have "isPathUnderDirectory (rootedPath ps) (rootedPath es) \<longleftrightarrow> \<not> HasPrefix (hd ts) ''..''"
      using rel True by (simp add: isPathUnderDirectory_def)
    then show ?thesis using ps_eq tne by auto
  next
    case bne: False
    then have "\<not> isPathUnderDirectory (rootedPath ps) (rootedPath es)"
      using rel HasPrefix_JoinStrings_dotdot [OF bne] by (simp add: isPathUnderDirectory_def)
    moreover have "\<not> prefix es ps"
      using dropCommon_prefix [of es ps] dc bne by simp
    ultimately show ?thesis by (auto simp: prefix_def)
  qed
qed

lemma specContained_withSlash: "specContained dir p = (p = dir \<or> HasPrefix p (withSlash dir))"
  by (simp add: specContained_def withSlash_def)

lemma HasPrefix_append_iff: "HasPrefix (a @ x) (a @ y) \<longleftrightarrow> HasPrefix x y"
  by (simp add: HasPrefix_def)

lemma Split_append:
  "Split (a @ sep # b) sep = Split a sep @ Split b sep"
  by (induction a) (auto split: list.splits simp: Split_nonempty)

lemma JoinStrings_append:
  "es \<noteq> [] \<Longrightarrow> ts \<noteq> [] \<Longrightarrow>
   JoinStrings (es @ ts) sep = JoinStrings es sep @ sep @ JoinStrings ts sep"
  by (induction es sep rule: JoinStrings.induct) (auto simp: JoinStrings_Cons)

lemma JoinStrings_empty_iff:
  "\<forall>e \<in> set es. e \<noteq> [] \<Longrightarrow> JoinStrings es sep = [] \<longleftrightarrow> es = []"
  by (induction es sep rule: JoinStrings.induct) auto

lemma rootedPath_root_iff:
  "\<forall>e \<in> set es. isName e \<Longrightarrow> rootedPath es = ''/'' \<longleftrightarrow> es = []"
  using JoinStrings_empty_iff [of es "''/''"] by (auto simp: rootedPath_def isName_def)

lemma rootedPath_append:
  assumes "\<forall>e \<in> set es. isName e" and "ts \<noteq> []"
  shows "rootedPath (es @ ts) = withSlash (rootedPath es) @ JoinStrings ts ''/''"
proof (cases "es = []")
  case True
  then show ?thesis by (simp add: rootedPath_def withSlash_def)
next
  case False
  then have "rootedPath es \<noteq> ''/''" using rootedPath_root_iff [OF assms(1)] by simp
  then show ?thesis using False assms(2)
    by (simp add: rootedPath_def withSlash_def JoinStrings_append)
qed

lemma HasPrefix_withSlash_elems:
  assumes es: "\<forall>e \<in> set es. isName e" and ps: "\<forall>e \<in> set ps. isName e"
    and pre: "HasPrefix (rootedPath ps) (withSlash (rootedPath es))"
  shows "prefix es ps"
proof (cases "es = []")
  case True
  then show ?thesis by simp
next
  case False
  then have nr: "rootedPath es \<noteq> ''/''" using rootedPath_root_iff [OF es] by simp
  from pre obtain rest where r: "rootedPath ps = rootedPath es @ Separator # rest"
    using nr by (auto simp: HasPrefix_iff withSlash_def)
  have pne: "ps \<noteq> []"
  proof
    assume "ps = []"
    then have "rootedPath ps = ''/''" by (simp add: rootedPath_def)
    then show False using r by (simp add: rootedPath_def)
  qed
  have "Split (rootedPath ps) Separator
          = Split (rootedPath es) Separator @ Split rest Separator"
    using r by (simp add: Split_append)
  then have "[] # ps = ([] # es) @ Split rest Separator"
    using es ps False pne by (simp add: Split_rootedPath)
  then have "ps = es @ Split rest Separator" by simp
  then show ?thesis by (metis prefixI)
qed

lemma specContained_rootedPath:
  assumes es: "\<forall>e \<in> set es. isName e" and ps: "\<forall>e \<in> set ps. isName e"
  shows "specContained (rootedPath es) (rootedPath ps) \<longleftrightarrow> prefix es ps"
proof
  assume "specContained (rootedPath es) (rootedPath ps)"
  then consider "rootedPath ps = rootedPath es"
    | "HasPrefix (rootedPath ps) (withSlash (rootedPath es))"
    by (auto simp: specContained_withSlash)
  then show "prefix es ps"
  proof cases
    case 1
    then have "ps = es" using rootedPath_Split_inj [OF ps es] by simp
    then show ?thesis by simp
  next
    case 2
    then show ?thesis by (rule HasPrefix_withSlash_elems [OF es ps])
  qed
next
  assume "prefix es ps"
  then obtain ts where ts: "ps = es @ ts" by (auto simp: prefix_def)
  show "specContained (rootedPath es) (rootedPath ps)"
  proof (cases "ts = []")
    case True
    then show ?thesis using ts by (simp add: specContained_withSlash)
  next
    case False
    then show ?thesis using ts rootedPath_append [OF es False]
      by (simp add: specContained_withSlash HasPrefix_iff)
  qed
qed

lemma isPathUnderDirectory_clean_absolute:
  assumes "IsAbs A" and "Clean A = A" and "IsAbs p" and "Clean p = p"
  shows "isPathUnderDirectory p A \<longleftrightarrow>
           specContained A p \<and> \<not> HasPrefix p (withSlash A @ ''..'')"
proof -
  obtain es where es: "\<forall>e \<in> set es. isName e" and A: "A = rootedPath es"
    using clean_absolute_is_rootedPath [OF assms(1,2)] by blast
  obtain ps where ps: "\<forall>e \<in> set ps. isName e" and p: "p = rootedPath ps"
    using clean_absolute_is_rootedPath [OF assms(3,4)] by blast
  show ?thesis
  proof (cases "prefix es ps")
    case False
    then have "\<not> specContained A p" using specContained_rootedPath [OF es ps] A p by simp
    moreover have "\<not> isPathUnderDirectory p A"
      using False isPathUnderDirectory_rootedPath [OF es ps] A p by (auto simp: prefix_def)
    ultimately show ?thesis by simp
  next
    case True
    then have sc: "specContained A p" using specContained_rootedPath [OF es ps] A p by simp
    from True obtain ts where ts: "ps = es @ ts" by (auto simp: prefix_def)
    show ?thesis
    proof (cases ts)
      case Nil
      then have eq: "p = A" using ts A p by simp
      have "\<not> HasPrefix A (withSlash A @ ''..'')"
        by (auto simp: HasPrefix_iff withSlash_def)
      moreover have "isPathUnderDirectory p A"
        using isPathUnderDirectory_rootedPath [OF es ps] ts Nil A p by simp
      ultimately show ?thesis using sc eq by simp
    next
      case (Cons t ts')
      then have tn: "isName t" using ps ts by simp
      have "p = withSlash A @ JoinStrings (t # ts') ''/''"
        using rootedPath_append [OF es, of ts] ts Cons A p by simp
      then have "HasPrefix p (withSlash A @ ''..'') \<longleftrightarrow> HasPrefix t ''..''"
        using HasPrefix_JoinStrings_head [OF tn] by (simp add: HasPrefix_append_iff)
      moreover have "isPathUnderDirectory p A \<longleftrightarrow> \<not> HasPrefix t ''..''"
        using isPathUnderDirectory_rootedPath [OF es ps] ts Cons A p by auto
      ultimately show ?thesis using sc by simp
    qed
  qed
qed

lemma dotdot_name_isName:
  assumes "HasPrefix name ''..''" and "name \<noteq> ''..''" and "Separator \<notin> set name"
  shows "isName name"
  using assms by (auto simp: isName_def HasPrefix_def)

lemma child_path_clean:
  assumes "IsAbs A" and "Clean A = A" and "isName name"
  shows "IsAbs (withSlash A @ name) \<and> Clean (withSlash A @ name) = withSlash A @ name"
proof -
  obtain es where es: "\<forall>e \<in> set es. isName e" and A: "A = rootedPath es"
    using clean_absolute_is_rootedPath [OF assms(1,2)] by blast
  have names: "\<forall>e \<in> set (es @ [name]). isName e" using es assms(3) by simp
  have eq: "withSlash A @ name = rootedPath (es @ [name])"
    using rootedPath_append [OF es, of "[name]"] A by simp
  have "IsAbs (rootedPath (es @ [name]))" by (simp add: IsAbs_def HasPrefix_def rootedPath_def)
  then show ?thesis using eq Clean_rootedPath [OF names] by simp
qed

lemma isPathAllowed_iff:
  "isPathAllowed pv p \<longleftrightarrow> (\<exists>d \<in> set (allowedDirectories pv). isPathUnderDirectory (Clean p) d)"
  by (simp add: isPathAllowed_def Let_def list_ex_iff)

lemma ExpandHomePath_absolute: "IsAbs p \<Longrightarrow> ExpandHomePath os p = p"
  by (cases p) (auto simp: ExpandHomePath_def IsAbs_def HasPrefix_def)

lemma validateRealPath_not_outside:
  "validateRealPath os w pv p \<noteq> Inl (ErrOutsideAllowed q)"
  by (simp add: validateRealPath_def Let_def split: sum.splits)

text \<open>
  C10, the claim as stated: with the allowed directories \<open>/a\<close> and \<open>/a/b\<close>, the
  file \<open>/a/b/..cache\<close> is directly under the allowed directory \<open>/a/b\<close> and its
  name begins with two dots. The check against \<open>/a/b\<close> refuses it, the check against
  \<open>/a\<close> accepts it (the relative path is \<open>b/..cache\<close>), and \<open>ValidatePath\<close>
  accepts the path.
\<close>

theorem ValidatePath_accepts_dotdot_name_nested:
  "allowedDirectories nestedValidator = [''/a'', ''/a/b'']
   \<and> Stat tableOS nestedWorld ''/a/b/..cache'' = Inr (fileStat 1)
   \<and> HasPrefix ''..cache'' ''..''
   \<and> Rel ''/a/b'' ''/a/b/..cache'' = Inr ''..cache''
   \<and> \<not> isPathUnderDirectory ''/a/b/..cache'' ''/a/b''
   \<and> Rel ''/a'' ''/a/b/..cache'' = Inr ''b/..cache''
   \<and> isPathUnderDirectory ''/a/b/..cache'' ''/a''
   \<and> ValidatePath tableOS nestedWorld nestedValidator ''/a/b/..cache''
       = Inr ''/a/b/..cache''"
  by code_simp

text \<open>
  C10 (as amended). Let \<open>A\<close> be an allowed directory (absolute and cleaned, as all of
  them are) and \<open>name\<close> a file name that begins with two dots and is not \<open>..\<close>.
  The path \<open>A/name\<close> is a descendant of \<open>A\<close> bounded by a path separator, and the
  containment check against \<open>A\<close> refuses it (the relative path is \<open>name\<close>, which
  has the prefix \<open>..\<close>). On any filesystem, \<open>ValidatePath\<close> rejects the path with
  the error "path outside allowed directories" exactly when no allowed directory
  contains the path with a first component below it that does not begin with two dots:
  so it does when \<open>A\<close> is the only allowed directory, or when no other allowed
  directory contains the path.
\<close>

theorem ValidatePath_rejects_dotdot_name:
  assumes "\<forall>d \<in> set ds. IsAbs d \<and> Clean d = d"
    and "A \<in> set ds"
    and "HasPrefix name ''..''" and "name \<noteq> ''..''" and "Separator \<notin> set name"
    and "p = (if A = ''/'' then A else A @ ''/'') @ name"
  shows "specContained A p
       \<and> \<not> isPathUnderDirectory p A
       \<and> (ValidatePath os w (NewPathValidator ds) p = Inl (ErrOutsideAllowed p)
            \<longleftrightarrow> (\<forall>d \<in> set ds. \<not> (specContained d p
                                     \<and> \<not> HasPrefix p ((if d = ''/'' then d else d @ ''/'') @ ''..''))))
       \<and> ((\<forall>d \<in> set ds. d \<noteq> A \<longrightarrow> \<not> specContained d p) \<longrightarrow>
            ValidatePath os w (NewPathValidator ds) p = Inl (ErrOutsideAllowed p))"
proof -
  have nm: "isName name" by (rule dotdot_name_isName [OF assms(3,4,5)])
  have A: "IsAbs A" "Clean A = A" using assms(1,2) by auto
  have p: "p = withSlash A @ name" using assms(6) by (simp add: withSlash_def)
  have pc: "IsAbs p" "Clean p = p" using child_path_clean [OF A nm] p by auto
  have dd: "HasPrefix p (withSlash A @ ''..'')"
    using assms(3) p by (simp add: HasPrefix_append_iff)
  have c1: "specContained A p"
    using p by (simp add: specContained_withSlash HasPrefix_iff)
  have c2: "\<not> isPathUnderDirectory p A"
    using isPathUnderDirectory_clean_absolute [OF A pc] dd by simp
  have each: "isPathUnderDirectory p d \<longleftrightarrow>
                specContained d p \<and> \<not> HasPrefix p ((if d = ''/'' then d else d @ ''/'') @ ''..'')"
    if d: "d \<in> set ds" for d
  proof -
    have "IsAbs d" "Clean d = d" using assms(1) d by auto
    then show ?thesis
      using isPathUnderDirectory_clean_absolute [OF _ _ pc] by (simp add: withSlash_def)
  qed
  have dirs: "allowedDirectories (NewPathValidator ds) = ds"
    using assms(1) by (simp add: NewPathValidator_def map_idI)
  have allowed: "isPathAllowed (NewPathValidator ds) p \<longleftrightarrow>
                   (\<exists>d \<in> set ds. specContained d p
                      \<and> \<not> HasPrefix p ((if d = ''/'' then d else d @ ''/'') @ ''..''))"
    using each by (simp add: isPathAllowed_iff dirs pc)
  have pne: "p \<noteq> []" using pc(1) by (auto simp: IsAbs_def HasPrefix_def)
  have vp: "ValidatePath os w (NewPathValidator ds) p
              = (if \<not> isPathAllowed (NewPathValidator ds) p then Inl (ErrOutsideAllowed p)
                 else validateRealPath os w (NewPathValidator ds) p)"
    using pne pc by (simp add: ValidatePath_def Let_def ExpandHomePath_absolute)
  have c3: "ValidatePath os w (NewPathValidator ds) p = Inl (ErrOutsideAllowed p)
            \<longleftrightarrow> (\<forall>d \<in> set ds. \<not> (specContained d p
                                     \<and> \<not> HasPrefix p ((if d = ''/'' then d else d @ ''/'') @ ''..'')))"
  proof (cases "isPathAllowed (NewPathValidator ds) p")
    case True
    then have "ValidatePath os w (NewPathValidator ds) p \<noteq> Inl (ErrOutsideAllowed p)"
      using vp validateRealPath_not_outside [of os w "NewPathValidator ds" p p] by simp
    then show ?thesis using True allowed by simp
  next
    case False
    then have "ValidatePath os w (NewPathValidator ds) p = Inl (ErrOutsideAllowed p)"
      using vp by simp
    then show ?thesis using False allowed by simp
  qed
  have c4: "ValidatePath os w (NewPathValidator ds) p = Inl (ErrOutsideAllowed p)"
    if others: "\<forall>d \<in> set ds. d \<noteq> A \<longrightarrow> \<not> specContained d p"
  proof -
    have "\<not> (specContained d p
              \<and> \<not> HasPrefix p ((if d = ''/'' then d else d @ ''/'') @ ''..''))"
      if d: "d \<in> set ds" for d
    proof (cases "d = A")
      case True
      have "HasPrefix p ((if A = ''/'' then A else A @ ''/'') @ ''..'')"
        using dd by (simp only: withSlash_def)
      then show ?thesis by (simp only: True simp_thms)
    next
      case False
      then show ?thesis using others d by simp
    qed
    then show ?thesis using c3 by simp
  qed
  show ?thesis using c1 c2 c3 c4 by (intro conjI impI)
qed

theorem ValidatePath_rejects_dotdot_name_witness:
  "specContained ''/allowed'' ''/allowed/..cache''
   \<and> \<not> isPathUnderDirectory ''/allowed/..cache'' ''/allowed''
   \<and> ValidatePath tableOS allowedWorld (NewPathValidator [''/allowed'']) ''/allowed/..cache''
       = Inl (ErrOutsideAllowed ''/allowed/..cache'')
   \<and> specContained ''/a/b'' ''/a/b/..cache''
   \<and> \<not> isPathUnderDirectory ''/a/b/..cache'' ''/a/b''
   \<and> ValidatePath tableOS nestedWorld (NewPathValidator [''/a'', ''/a/b'']) ''/a/b/..cache''
       \<noteq> Inl (ErrOutsideAllowed ''/a/b/..cache'')"
proof -
  have a1: "\<forall>d \<in> set [''/allowed'']. IsAbs d \<and> Clean d = d" by code_simp
  have a2: "''/allowed'' \<in> set [''/allowed'']" by simp
  have a3: "HasPrefix ''..cache'' ''..''" by code_simp
  have a4: "''..cache'' \<noteq> ''..''" by simp
  have a5: "Separator \<notin> set ''..cache''" by simp
  have a6: "''/allowed/..cache'' = (if ''/allowed'' = ''/'' then ''/allowed'' else ''/allowed'' @ ''/'') @ ''..cache''"
    by simp
  have a7: "\<forall>d \<in> set [''/allowed'']. d \<noteq> ''/allowed'' \<longrightarrow> \<not> specContained d ''/allowed/..cache''"
    by simp
  note single = ValidatePath_rejects_dotdot_name [OF a1 a2 a3 a4 a5 a6,
      where os = tableOS and w = allowedWorld]
  have b1: "\<forall>d \<in> set [''/a'', ''/a/b'']. IsAbs d \<and> Clean d = d" by code_simp
  have b2: "''/a/b'' \<in> set [''/a'', ''/a/b'']" by simp
  have b6: "''/a/b/..cache'' = (if ''/a/b'' = ''/'' then ''/a/b'' else ''/a/b'' @ ''/'') @ ''..cache''"
    by simp
  have b7: "\<not> (\<forall>d \<in> set [''/a'', ''/a/b''].
                 \<not> (specContained d ''/a/b/..cache''
                    \<and> \<not> HasPrefix ''/a/b/..cache'' ((if d = ''/'' then d else d @ ''/'') @ ''..'')))"
    by code_simp
  note nested = ValidatePath_rejects_dotdot_name [OF b1 b2 a3 a4 a5 b6,
      where os = tableOS and w = nestedWorld]
  have c1: "specContained ''/allowed'' ''/allowed/..cache''"
    by (rule single [THEN conjunct1])
  have c2: "\<not> isPathUnderDirectory ''/allowed/..cache'' ''/allowed''"
    by (rule single [THEN conjunct2, THEN conjunct1])
  have c3: "ValidatePath tableOS allowedWorld (NewPathValidator [''/allowed'']) ''/allowed/..cache''
       = Inl (ErrOutsideAllowed ''/allowed/..cache'')"
    by (rule single [THEN conjunct2, THEN conjunct2, THEN conjunct2, THEN mp, OF a7])
  have c4: "specContained ''/a/b'' ''/a/b/..cache''"
    by (rule nested [THEN conjunct1])
  have c5: "\<not> isPathUnderDirectory ''/a/b/..cache'' ''/a/b''"
    by (rule nested [THEN conjunct2, THEN conjunct1])
  have c6: "ValidatePath tableOS nestedWorld (NewPathValidator [''/a'', ''/a/b'']) ''/a/b/..cache''
       \<noteq> Inl (ErrOutsideAllowed ''/a/b/..cache'')"
  proof
    assume "ValidatePath tableOS nestedWorld (NewPathValidator [''/a'', ''/a/b''])
              ''/a/b/..cache'' = Inl (ErrOutsideAllowed ''/a/b/..cache'')"
    then have "\<forall>d \<in> set [''/a'', ''/a/b''].
                 \<not> (specContained d ''/a/b/..cache''
                    \<and> \<not> HasPrefix ''/a/b/..cache'' ((if d = ''/'' then d else d @ ''/'') @ ''..''))"
      by (rule nested [THEN conjunct2, THEN conjunct2, THEN conjunct1, THEN iffD1])
    with b7 show False by (rule notE)
  qed
  show ?thesis by (intro conjI c1 c2 c3 c4 c5 c6)
qed

end
